theory Spec2Isabelle
  imports Main "HOL-Library.Word" "HOL-Library.Sublist"
begin

unbundle bit_operations_syntax

section \<open>The network album client of EPD\_Album.c\<close>

text \<open>
  The file embeds the socket client of \<^verbatim>\<open>src/EPD_Album.c\<close>: the command channel
  \<^verbatim>\<open>socket_send_command\<close>, the frame download \<^verbatim>\<open>socket_get_image_data\<close>, the
  text scanning done inline in \<^verbatim>\<open>EPD_test_net\<close>, and the main loop of
  \<^verbatim>\<open>EPD_test_net\<close> itself.

  The Tuya network layer (\<^verbatim>\<open>tal_net_*\<close>), the WiFi stack and the panel driver are
  not part of the repository. They are the environment: every call the C code makes to
  them is recorded as an \<open>action\<close> in a trace, and the value the call returns is taken
  from a description of the environment that the model receives as an argument.
  Logging (\<^verbatim>\<open>PR_DEBUG\<close>, \<^verbatim>\<open>PR_INFO\<close>, \<^verbatim>\<open>PR_ERR\<close>, \<^verbatim>\<open>print_hex_dump\<close>) is left
  out, except for the line that prints what was scanned from the reply to \<^verbatim>\<open>info\<close>.
\<close>

subsection \<open>Constants of the source\<close>

type_synonym byte = "8 word"
type_synonym u32 = "32 word"

definition RECV_BUFFER_SIZE :: int where
  "RECV_BUFFER_SIZE = 1024"

definition LOOP_INTERVAL_MS :: nat where
  "LOOP_INTERVAL_MS = 180000"

definition IMAGE_BUFFER_SIZE :: nat where
  "IMAGE_BUFFER_SIZE = 120000"

subsection \<open>The environment: one TCP connection\<close>

text \<open>
  What arrives on a connection is a list of events: a segment of payload, the peer's
  orderly close, or a fault of the transport (a receive timeout is one; the value is
  the negative number \<^verbatim>\<open>tal_net_recv\<close> returns). When the list is used up the peer
  stays silent, and the receive timeout fires.
\<close>

datatype 'a net_event = Chunk "'a list" | PeerClose | RecvError int

text \<open>
  The value \<^verbatim>\<open>tal_net_recv\<close> returns when its timeout fires. The source tests the
  sign only, so that any negative number does.
\<close>

definition timeout_ret :: int where
  "timeout_ret = - 1"

text \<open>
  \<^verbatim>\<open>tal_net_recv(fd, buf, n)\<close> on a stream socket: it returns at most \<open>n\<close> bytes of
  the segment at the front and leaves the rest of that segment queued; it returns \<open>0\<close>
  when the peer has closed, and a negative number on a fault. A fault value that is not
  negative is read as the timeout. The result is the returned number, the bytes stored
  into the buffer, and the events still to come.
\<close>

fun tal_net_recv :: "'a net_event list \<Rightarrow> nat \<Rightarrow> int \<times> 'a list \<times> 'a net_event list" where
  "tal_net_recv [] n = (timeout_ret, [], [])"
| "tal_net_recv (PeerClose # evs) n = (0, [], PeerClose # evs)"
| "tal_net_recv (RecvError e # evs) n = ((if e < 0 then e else timeout_ret), [], evs)"
| "tal_net_recv (Chunk bs # evs) n =
     (if bs = [] then tal_net_recv evs n
      else if length bs \<le> n then (int (length bs), bs, evs)
      else (int n, take n bs, Chunk (drop n bs) # evs))"

text \<open>
  The environment of one call of \<^verbatim>\<open>socket_send_command\<close> or \<^verbatim>\<open>socket_get_image_data\<close>:
  the results of \<^verbatim>\<open>tal_net_socket_create\<close>, \<^verbatim>\<open>tal_net_str2addr\<close>, \<^verbatim>\<open>tal_net_connect\<close>
  and \<^verbatim>\<open>tal_net_send\<close>, and what the peer sends.
\<close>

record 'a session =
  create_ret :: int
  str2addr_ret :: u32
  connect_ret :: int
  send_ret :: int
  incoming :: "'a net_event list"

datatype direction = TRANS_RECV | TRANS_SEND

datatype action =
    SocketCreate
  | SetTimeout int nat direction
  | Str2Addr
  | Connect int
  | NetSend int string
  | NetRecv int nat
  | NetClose int
  | SysSleep nat
  | ReadLinkFlag
  | WifiInit
  | WifiSetWorkMode
  | WifiStationConnect
  | WifiStationDisconnect
  | Malloc nat
  | Free
  | DevModuleInit
  | EpdInit
  | EpdDisplayFast "byte list"
  | DevDelay nat
  | EpdSleep
  | DevModuleExit
  | LogImageInfo int int string

subsection \<open>The frame download: socket\_get\_image\_data\<close>

text \<open>
  \<^verbatim>\<open>memcpy\<close> of the received bytes to \<^verbatim>\<open>data + received\<close>. The model keeps the buffer
  as a list; a write that ends beyond the list would be a buffer overflow in C.
\<close>

definition write_at :: "'a list \<Rightarrow> nat \<Rightarrow> 'a list \<Rightarrow> 'a list" where
  "write_at buf off bs = take off buf @ bs @ drop (off + length bs) buf"

text \<open>
  \<^verbatim>\<open>(header[0] << 24) | (header[1] << 16) | (header[2] << 8) | header[3]\<close>, stored into
  a \<^verbatim>\<open>uint32_t\<close>. (With \<^verbatim>\<open>header[0] >= 128\<close> the shift overflows \<^verbatim>\<open>int\<close>; the
  compilers of the target give the two's complement bits, which is what the word
  computes.)
\<close>

definition be32 :: "byte list \<Rightarrow> u32" where
  "be32 header =
     push_bit 24 (ucast (header ! 0)) OR push_bit 16 (ucast (header ! 1))
       OR push_bit 8 (ucast (header ! 2)) OR ucast (header ! 3)"

text \<open>
  The receive loop. The result is: whether the loop ran to its end, the local
  \<^verbatim>\<open>received\<close>, the buffer, and the trace. On a failed receive the loop itself closes
  the socket and the function returns.
\<close>

function recv_image_loop ::
  "int \<Rightarrow> nat \<Rightarrow> nat \<Rightarrow> byte list \<Rightarrow> byte net_event list \<Rightarrow> bool \<times> nat \<times> byte list \<times> action list"
where
  "recv_image_loop fd image_size received data evs =
     (if received < image_size then
        (let to_recv = (if image_size - received > 4096 then 4096 else image_size - received);
             r = tal_net_recv evs to_recv
         in if fst r \<le> 0 then (False, received, data, [NetRecv fd to_recv, NetClose fd])
            else
              (let l = recv_image_loop fd image_size (received + nat (fst r))
                         (write_at data received (fst (snd r))) (snd (snd r))
               in (fst l, fst (snd l), fst (snd (snd l)), NetRecv fd to_recv # snd (snd (snd l)))))
      else (True, received, data, []))"
  by pat_completeness auto
termination
  by (relation "measure (\<lambda>(fd, image_size, received, data, evs). image_size - received)") auto

record image_result =
  ir_ret :: int
  ir_data :: "byte list option"
  ir_data_size :: "u32 option"
  ir_image_size :: u32
  ir_received :: nat
  ir_trace :: "action list"

text \<open>
  \<^verbatim>\<open>socket_get_image_data(data, data_size)\<close>. A null pointer is \<open>None\<close>. The result
  holds the return value, the memory behind the two pointers after the call, the locals
  \<^verbatim>\<open>image_size\<close> and \<^verbatim>\<open>received\<close> at the return, and the trace of calls.
\<close>

definition socket_get_image_data ::
  "byte session \<Rightarrow> byte list option \<Rightarrow> u32 option \<Rightarrow> image_result"
where
  "socket_get_image_data s data data_size =
     (let failed = (\<lambda>tr. \<lparr>ir_ret = - 1, ir_data = data, ir_data_size = data_size,
                           ir_image_size = 0, ir_received = 0, ir_trace = tr\<rparr>)
      in if data = None \<or> data_size = None then failed []
      else
        let fd = create_ret s in
        if fd < 0 then failed [SocketCreate]
        else
          let tr1 = [SocketCreate, SetTimeout fd 10000 TRANS_RECV, SetTimeout fd 5000 TRANS_SEND,
                     Str2Addr] in
          if str2addr_ret s = 0 then failed (tr1 @ [NetClose fd])
          else
            let tr2 = tr1 @ [Connect fd] in
            if connect_ret s \<noteq> 0 then failed (tr2 @ [NetClose fd])
            else
              let tr3 = tr2 @ [NetSend fd ''get_c''] in
              if send_ret s < 0 then failed (tr3 @ [NetClose fd])
              else
                let h = tal_net_recv (incoming s) 4;
                    header = write_at (replicate 4 0) 0 (fst (snd h));
                    tr4 = tr3 @ [NetRecv fd 4] in
                if fst h \<noteq> 4 then failed (tr4 @ [NetClose fd])
                else
                  let image_size = be32 header in
                  if unat image_size > IMAGE_BUFFER_SIZE then
                    (failed (tr4 @ [NetClose fd])) \<lparr>ir_image_size := image_size\<rparr>
                  else
                    let l = recv_image_loop fd (unat image_size) 0 (the data) (snd (snd h)) in
                    if \<not> fst l then
                      \<lparr>ir_ret = - 1, ir_data = Some (fst (snd (snd l))),
                       ir_data_size = Some image_size, ir_image_size = image_size,
                       ir_received = fst (snd l), ir_trace = tr4 @ snd (snd (snd l))\<rparr>
                    else
                      \<lparr>ir_ret = 0, ir_data = Some (fst (snd (snd l))),
                       ir_data_size = Some image_size, ir_image_size = image_size,
                       ir_received = fst (snd l),
                       ir_trace = tr4 @ snd (snd (snd l)) @ [NetClose fd]\<rparr>)"

subsection \<open>The command channel: socket\_send\_command\<close>

record globals =
  g_wifi_connected :: bool
  g_socket_connected :: bool
  g_image_index :: int
  g_image_total :: int

definition NUL :: char where
  "NUL = CHR 0x00"

text \<open>\<^verbatim>\<open>memset(response, 0, resp_size)\<close>.\<close>

definition memset0 :: "string \<Rightarrow> nat \<Rightarrow> string" where
  "memset0 buf n = replicate n NUL @ drop n buf"

text \<open>The text a \<^verbatim>\<open>char\<close> buffer holds as a C string: the bytes before the first NUL.\<close>

definition cstr :: "string \<Rightarrow> string" where
  "cstr buf = takeWhile (\<lambda>c. c \<noteq> NUL) buf"

record command_result =
  cr_ret :: int
  cr_response :: "string option"
  cr_globals :: globals
  cr_trace :: "action list"

text \<open>
  \<^verbatim>\<open>socket_send_command(cmd, response, resp_size)\<close>. The command is sent with
  \<^verbatim>\<open>strlen(cmd)\<close> bytes, so \<open>cmd\<close> is the C string. There is one call of
  \<^verbatim>\<open>tal_net_recv\<close>, asking for \<^verbatim>\<open>resp_size - 1\<close> bytes.
\<close>

definition socket_send_command ::
  "char session \<Rightarrow> globals \<Rightarrow> string option \<Rightarrow> string option \<Rightarrow> int \<Rightarrow> command_result"
where
  "socket_send_command s g cmd response resp_size =
     (let failed = (\<lambda>tr. \<lparr>cr_ret = - 1, cr_response = response, cr_globals = g, cr_trace = tr\<rparr>)
      in if cmd = None \<or> response = None \<or> resp_size \<le> 0 then failed []
      else
        let fd = create_ret s in
        if fd < 0 then failed [SocketCreate]
        else
          let tr1 = [SocketCreate, SetTimeout fd 5000 TRANS_RECV, SetTimeout fd 5000 TRANS_SEND,
                     Str2Addr] in
          if str2addr_ret s = 0 then failed (tr1 @ [NetClose fd])
          else
            let tr2 = tr1 @ [Connect fd] in
            if connect_ret s \<noteq> 0 then failed (tr2 @ [NetClose fd])
            else
              let tr3 = tr2 @ [NetSend fd (the cmd)] in
              if send_ret s < 0 then failed (tr3 @ [NetClose fd])
              else
                let zeroed = memset0 (the response) (nat resp_size);
                    r = tal_net_recv (incoming s) (nat (resp_size - 1));
                    tr4 = tr3 @ [NetRecv fd (nat (resp_size - 1))] in
                if fst r > 0 then
                  \<lparr>cr_ret = 0,
                   cr_response = Some ((write_at zeroed 0 (fst (snd r))) [nat (fst r) := NUL]),
                   cr_globals = g \<lparr>g_socket_connected := False\<rparr>,
                   cr_trace = tr4 @ [NetClose fd]\<rparr>
                else if fst r = 0 then
                  \<lparr>cr_ret = 0, cr_response = Some zeroed,
                   cr_globals = g \<lparr>g_socket_connected := False\<rparr>,
                   cr_trace = tr4 @ [NetClose fd]\<rparr>
                else
                  \<lparr>cr_ret = - 1, cr_response = Some zeroed, cr_globals = g,
                   cr_trace = tr4 @ [NetClose fd]\<rparr>)"

subsection \<open>Scanning the replies\<close>

text \<open>
  Pointers into the reply are offsets into the C string. \<^verbatim>\<open>strstr\<close> and
  \<^verbatim>\<open>strchr\<close> return the offset of the first match, \<open>None\<close> for \<^verbatim>\<open>NULL\<close>.
\<close>

fun strstr :: "string \<Rightarrow> string \<Rightarrow> nat option" where
  "strstr [] needle = (if needle = [] then Some 0 else None)"
| "strstr (c # cs) needle =
     (if prefix needle (c # cs) then Some 0 else map_option Suc (strstr cs needle))"

fun strchr0 :: "string \<Rightarrow> char \<Rightarrow> nat option" where
  "strchr0 [] c = None"
| "strchr0 (x # xs) c = (if x = c then Some 0 else map_option Suc (strchr0 xs c))"

text \<open>\<^verbatim>\<open>strchr(text + from, c)\<close>, as an offset into \<open>text\<close>.\<close>

definition strchr :: "string \<Rightarrow> nat \<Rightarrow> char \<Rightarrow> nat option" where
  "strchr text from c = map_option (\<lambda>i. from + i) (strchr0 (drop from text) c)"

definition dquote :: char where
  "dquote = CHR 0x22"

text \<open>The string literal \<^verbatim>\<open>"\"name\""\<close> of the source.\<close>

definition quoted :: "string \<Rightarrow> string" where
  "quoted name = dquote # name @ [dquote]"

definition isspace :: "char \<Rightarrow> bool" where
  "isspace c = (c = CHR 0x20 \<or> c = CHR 0x09 \<or> c = CHR 0x0A \<or> c = CHR 0x0B \<or> c = CHR 0x0C
                 \<or> c = CHR 0x0D)"

definition isdigit :: "char \<Rightarrow> bool" where
  "isdigit c = (48 \<le> (of_char c :: nat) \<and> (of_char c :: nat) \<le> 57)"

definition digit_val :: "char \<Rightarrow> int" where
  "digit_val c = int (of_char c) - 48"

definition skip_space :: "string \<Rightarrow> string" where
  "skip_space text = dropWhile isspace text"

text \<open>
  The value a 32 bit \<^verbatim>\<open>int\<close> holds when a number is stored into it: the low 32
  bits, read as two's complement. It is the number itself when the number fits.
\<close>

definition to_int32 :: "int \<Rightarrow> int" where
  "to_int32 v = sint (word_of_int v :: 32 word)"

text \<open>
  The conversion \<^verbatim>\<open>%d\<close>: white space, an optional sign, decimal digits. \<open>None\<close>
  when no digit follows (nothing is stored). The result is what the \<^verbatim>\<open>int\<close> behind
  the pointer holds afterwards. (For a number that does not fit \<^verbatim>\<open>int\<close> the C standard
  leaves the conversion undefined; the libraries convert in a wider type and store the
  low 32 bits, which is what the model does.)
\<close>

definition scan_d :: "string \<Rightarrow> int option" where
  "scan_d text =
     (let s1 = skip_space text;
          neg = (s1 \<noteq> [] \<and> hd s1 = CHR ''-'');
          s2 = (if s1 \<noteq> [] \<and> (hd s1 = CHR ''-'' \<or> hd s1 = CHR ''+'') then tl s1 else s1);
          ds = takeWhile isdigit s2
      in if ds = [] then None
         else Some (to_int32
                ((if neg then - 1 else 1) * foldl (\<lambda>a c. 10 * a + digit_val c) 0 ds)))"

text \<open>
  \<^verbatim>\<open>sscanf(p, "\"name\" : %d", &v)\<close>: the quoted name literally, white space, a colon,
  white space, \<^verbatim>\<open>%d\<close>. The result is the value stored into \<open>v\<close>, if one is.
\<close>

definition sscanf_field :: "string \<Rightarrow> string \<Rightarrow> int option" where
  "sscanf_field p name =
     (if \<not> prefix (quoted name) p then None
      else
        let s1 = skip_space (drop (length (quoted name)) p) in
        if s1 \<noteq> [] \<and> hd s1 = CHR '':'' then scan_d (tl s1) else None)"

text \<open>
  \<^verbatim>\<open>p = strstr(response, "\"name\""); if (p) { sscanf(p, "\"name\" : %d", &v); }\<close>
  with the variable's value before as the last argument.
\<close>

definition scan_int_field :: "string \<Rightarrow> string \<Rightarrow> int \<Rightarrow> int" where
  "scan_int_field response name v =
     (case strstr response (quoted name) of
        None \<Rightarrow> v
      | Some p \<Rightarrow> (case sscanf_field (drop p response) name of None \<Rightarrow> v | Some n \<Rightarrow> n))"

text \<open>The block after the \<^verbatim>\<open>update\<close> command.\<close>

definition parse_update :: "string \<Rightarrow> globals \<Rightarrow> globals" where
  "parse_update response g =
     g \<lparr>g_image_index := scan_int_field response ''current_index'' (g_image_index g),
        g_image_total := scan_int_field response ''total'' (g_image_total g)\<rparr>"

text \<open>
  The body of \<^verbatim>\<open>if (start && end && end > start + 1)\<close> with its condition on the
  two offsets: the bytes between them are copied when they are fewer than
  \<^verbatim>\<open>sizeof(filename) - 1\<close>; otherwise \<^verbatim>\<open>filename\<close> stays as it was initialised,
  the empty string.
\<close>

definition copy_filename :: "string \<Rightarrow> nat \<Rightarrow> nat \<Rightarrow> string" where
  "copy_filename response start end' =
     (if end' > start + 1 then
        (let len = int end' - int start - 1 in
         if len < 256 - 1 then take (nat len) (drop (start + 1) response) else [])
      else [])"

text \<open>
  The \<^verbatim>\<open>filename\<close> part of the block after the \<^verbatim>\<open>info\<close> command; the result is
  the C string in \<^verbatim>\<open>char filename[256] = {0}\<close>. \<^verbatim>\<open>start\<close> is searched from \<open>p\<close>
  itself, where the opening quote of the marker stands, and \<^verbatim>\<open>end\<close> from the byte
  after \<^verbatim>\<open>start\<close>.
\<close>

definition parse_filename :: "string \<Rightarrow> string" where
  "parse_filename response =
     (case strstr response (quoted ''filename'') of
        None \<Rightarrow> []
      | Some p \<Rightarrow>
          (case strchr response p dquote of
             None \<Rightarrow> []
           | Some start \<Rightarrow>
               (case strchr response (start + 1) dquote of
                  None \<Rightarrow> []
                | Some end' \<Rightarrow> copy_filename response start end')))"

text \<open>
  The block after the \<^verbatim>\<open>info\<close> command: the locals \<^verbatim>\<open>index\<close>, \<^verbatim>\<open>total\<close> and
  \<^verbatim>\<open>filename\<close> that are logged, and the globals.
\<close>

definition parse_info :: "string \<Rightarrow> globals \<Rightarrow> (int \<times> int \<times> string) \<times> globals" where
  "parse_info response g =
     (let index = scan_int_field response ''index'' 0;
          total = scan_int_field response ''total'' 0;
          g' = (if strstr response (quoted ''total'') = None then g
                else g \<lparr>g_image_total := total\<rparr>)
      in ((index, total, parse_filename response), g'))"

subsection \<open>The WiFi callback and the wait for the link\<close>

datatype WF_EVENT_E = WFE_CONNECTED | WFE_CONNECT_FAILED | WFE_DISCONNECTED | WFE_OTHER nat

text \<open>
  \<^verbatim>\<open>wifi_event_callback\<close>. (The address it asks for on \<^verbatim>\<open>WFE_CONNECTED\<close> is only
  logged.)
\<close>

fun wifi_event_callback :: "WF_EVENT_E \<Rightarrow> globals \<Rightarrow> globals" where
  "wifi_event_callback WFE_CONNECTED g = g \<lparr>g_wifi_connected := True\<rparr>"
| "wifi_event_callback WFE_CONNECT_FAILED g = g \<lparr>g_wifi_connected := False\<rparr>"
| "wifi_event_callback WFE_DISCONNECTED g =
     g \<lparr>g_wifi_connected := False, g_socket_connected := False\<rparr>"
| "wifi_event_callback (WFE_OTHER n) g = g"

text \<open>The callbacks of a list of events, in the order of the events.\<close>

definition deliver :: "WF_EVENT_E list \<Rightarrow> globals \<Rightarrow> globals" where
  "deliver evs g = foldl (\<lambda>g ev. wifi_event_callback ev g) g evs"

text \<open>
  \<^verbatim>\<open>wifi_connect_wait\<close>, with the local \<^verbatim>\<open>timeout\<close> as the first argument (the
  source starts it at 30). The second argument lists the events that arrive during
  each \<^verbatim>\<open>tal_system_sleep(1000)\<close>.
\<close>

fun wifi_connect_wait ::
  "nat \<Rightarrow> WF_EVENT_E list list \<Rightarrow> globals \<Rightarrow> int \<times> globals \<times> action list"
where
  "wifi_connect_wait 0 evss g = (- 1, g, [])"
| "wifi_connect_wait (Suc timeout) evss g =
     (if g_wifi_connected g then (0, g, [ReadLinkFlag])
      else
        let w = wifi_connect_wait timeout (tl evss) (deliver (if evss = [] then [] else hd evss) g)
        in (fst w, fst (snd w), ReadLinkFlag # SysSleep 1000 # snd (snd w)))"

subsection \<open>The main loop of EPD\_test\_net\<close>

text \<open>
  The variables of \<^verbatim>\<open>EPD_test_net\<close> that live across the cycles, with the globals.
\<close>

record state =
  st_globals :: globals
  st_response :: string
  st_image_size :: u32
  st_loop_count :: u32

text \<open>
  The environment of one cycle: the WiFi events whose callbacks run during the cycle,
  the connections of the three commands, the block \<^verbatim>\<open>malloc\<close> returns (\<open>None\<close> for
  \<^verbatim>\<open>NULL\<close>), and the result of \<^verbatim>\<open>DEV_Module_Init\<close>. The loop never reads the two
  flags the callbacks write, so the callbacks are run at the start of the cycle.
\<close>

record cycle_env =
  ce_events :: "WF_EVENT_E list"
  ce_update :: "char session"
  ce_info :: "char session"
  ce_malloc :: "byte list option"
  ce_get_c :: "byte session"
  ce_dev_init :: int

text \<open>One pass through the body of \<^verbatim>\<open>while (1)\<close>, up to its \<^verbatim>\<open>continue\<close> or its end.\<close>

definition cycle :: "cycle_env \<Rightarrow> state \<Rightarrow> state \<times> action list" where
  "cycle e st0 =
     (let st = st0 \<lparr>st_globals := deliver (ce_events e) (st_globals st0),
                    st_loop_count := st_loop_count st0 + 1\<rparr>;
          u = socket_send_command (ce_update e) (st_globals st) (Some ''update'')
                (Some (st_response st)) RECV_BUFFER_SIZE;
          st1 = st \<lparr>st_globals := cr_globals u, st_response := the (cr_response u)\<rparr>
      in if cr_ret u \<noteq> 0 then (st1, cr_trace u @ [SysSleep LOOP_INTERVAL_MS])
      else
        let g1 = parse_update (cstr (st_response st1)) (st_globals st1);
            i = socket_send_command (ce_info e) g1 (Some ''info'')
                  (Some (st_response st1)) RECV_BUFFER_SIZE;
            st2 = st1 \<lparr>st_globals := cr_globals i, st_response := the (cr_response i)\<rparr>
        in if cr_ret i \<noteq> 0 then (st2, cr_trace u @ cr_trace i @ [SysSleep LOOP_INTERVAL_MS])
        else
          let info = parse_info (cstr (st_response st2)) (st_globals st2);
              st3 = st2 \<lparr>st_globals := snd info\<rparr>;
              tr3 = cr_trace u @ cr_trace i
                      @ [LogImageInfo (fst (fst info)) (fst (snd (fst info))) (snd (snd (fst info))),
                         Malloc IMAGE_BUFFER_SIZE]
          in if ce_malloc e = None then (st3, tr3 @ [SysSleep LOOP_INTERVAL_MS])
          else
            let d = socket_get_image_data (ce_get_c e) (ce_malloc e) (Some (st_image_size st3));
                st4 = st3 \<lparr>st_image_size := the (ir_data_size d)\<rparr>
            in if ir_ret d \<noteq> 0 then (st4, tr3 @ ir_trace d @ [Free, SysSleep LOOP_INTERVAL_MS])
            else if ce_dev_init e \<noteq> 0 then
              (st4, tr3 @ ir_trace d @ [DevModuleInit, Free, SysSleep LOOP_INTERVAL_MS])
            else
              (st4, tr3 @ ir_trace d
                      @ [DevModuleInit, EpdInit, EpdDisplayFast (the (ir_data d)), DevDelay 30000,
                         EpdSleep, DevDelay 500, DevModuleExit, Free,
                         SysSleep LOOP_INTERVAL_MS]))"

text \<open>
  \<^verbatim>\<open>while (1)\<close> has no \<^verbatim>\<open>break\<close> and no \<^verbatim>\<open>return\<close>: it runs as many cycles as
  the environment is given for, and is then still inside the loop.
\<close>

fun main_loop :: "cycle_env list \<Rightarrow> state \<Rightarrow> state \<times> action list" where
  "main_loop [] st = (st, [])"
| "main_loop (e # es) st =
     (let c = cycle e st; m = main_loop es (fst c) in (fst m, snd c @ snd m))"

record startup_env =
  su_wifi_init :: int
  su_set_work_mode :: int
  su_station_connect :: int
  su_connect_events :: "WF_EVENT_E list"
  su_wait_events :: "WF_EVENT_E list list"

datatype outcome = Returned int | InMainLoop

text \<open>
  The state at the entry of \<^verbatim>\<open>EPD_test_net\<close>; \<^verbatim>\<open>response\<close> is not initialised,
  its bytes are the argument.
\<close>

definition initial_state :: "string \<Rightarrow> state" where
  "initial_state response0 =
     \<lparr>st_globals = \<lparr>g_wifi_connected = False, g_socket_connected = False,
                     g_image_index = 0, g_image_total = 0\<rparr>,
      st_response = response0, st_image_size = 0, st_loop_count = 0\<rparr>"

text \<open>
  \<^verbatim>\<open>EPD_test_net\<close>, run for the cycles of the list. \<open>Returned r\<close> is \<^verbatim>\<open>return r\<close>;
  \<open>InMainLoop\<close> says that control is in \<^verbatim>\<open>while (1)\<close>.
\<close>

definition EPD_test_net ::
  "startup_env \<Rightarrow> cycle_env list \<Rightarrow> string \<Rightarrow> outcome \<times> state \<times> action list"
where
  "EPD_test_net su cycles response0 =
     (let st0 = initial_state response0 in
      if su_wifi_init su \<noteq> 0 then (Returned (- 1), st0, [WifiInit])
      else if su_set_work_mode su \<noteq> 0 then (Returned (- 1), st0, [WifiInit, WifiSetWorkMode])
      else if su_station_connect su \<noteq> 0 then
        (Returned (- 1), st0, [WifiInit, WifiSetWorkMode, WifiStationConnect])
      else
        let w = wifi_connect_wait 30 (su_wait_events su)
                  (deliver (su_connect_events su) (st_globals st0));
            st1 = st0 \<lparr>st_globals := fst (snd w)\<rparr>;
            tr1 = [WifiInit, WifiSetWorkMode, WifiStationConnect] @ snd (snd w)
        in if fst w \<noteq> 0 then (Returned (- 1), st1, tr1 @ [WifiStationDisconnect])
           else
             let m = main_loop cycles st1 in (InMainLoop, fst m, tr1 @ snd m))"

section \<open>Notions used in the statements\<close>

text \<open>
  The bytes a peer delivers before it closes, a fault occurs or it falls silent: the
  payload of the segments up to the first event that is not a segment.
\<close>

fun delivered :: "'a net_event list \<Rightarrow> 'a list" where
  "delivered [] = []"
| "delivered (Chunk bs # evs) = bs @ delivered evs"
| "delivered (PeerClose # evs) = []"
| "delivered (RecvError e # evs) = []"

text \<open>The number of bytes the receive loop asks for when \<open>received\<close> bytes are there.\<close>

definition to_recv_of :: "nat \<Rightarrow> nat \<Rightarrow> nat" where
  "to_recv_of image_size received =
     (if image_size - received > 4096 then 4096 else image_size - received)"

text \<open>
  The connection was set up and the command was sent: the socket exists, the address
  is valid, the connect and the send succeeded.
\<close>

definition ready :: "'a session \<Rightarrow> bool" where
  "ready s = (0 \<le> create_ret s \<and> str2addr_ret s \<noteq> 0 \<and> connect_ret s = 0 \<and> 0 \<le> send_ret s)"

text \<open>Projections of the trace.\<close>

fun is_close :: "action \<Rightarrow> bool" where
  "is_close (NetClose fd) = True"
| "is_close a = False"

fun recv_request :: "action \<Rightarrow> nat option" where
  "recv_request (NetRecv fd n) = Some n"
| "recv_request a = None"

text \<open>What \<^verbatim>\<open>socket_get_image_data\<close> has done when the header has been read.\<close>

definition header_trace :: "int \<Rightarrow> action list" where
  "header_trace fd =
     [SocketCreate, SetTimeout fd 10000 TRANS_RECV, SetTimeout fd 5000 TRANS_SEND, Str2Addr,
      Connect fd, NetSend fd ''get_c'', NetRecv fd 4]"

text \<open>A connection that is set up without a fault, for the examples.\<close>

definition demo_session :: "byte net_event list \<Rightarrow> byte session" where
  "demo_session evs =
     \<lparr>create_ret = 3, str2addr_ret = 0xC0A8010F, connect_ret = 0, send_ret = 5, incoming = evs\<rparr>"

text \<open>The calls of a \<^verbatim>\<open>socket_send_command\<close> that meets no fault before its receive.\<close>

definition command_trace :: "int \<Rightarrow> string \<Rightarrow> nat \<Rightarrow> action list" where
  "command_trace fd cmd n =
     [SocketCreate, SetTimeout fd 5000 TRANS_RECV, SetTimeout fd 5000 TRANS_SEND, Str2Addr,
      Connect fd, NetSend fd cmd, NetRecv fd n, NetClose fd]"

text \<open>
  The reply as the specification words it: what is read "until either the buffer
  fills, the peer closes the connection, or the receive timeout fires".
\<close>

definition spec_reply :: "'a net_event list \<Rightarrow> nat \<Rightarrow> 'a list" where
  "spec_reply evs capacity = take capacity (delivered evs)"

text \<open>Globals and a text connection for the examples.\<close>

definition demo_globals :: globals where
  "demo_globals = \<lparr>g_wifi_connected = True, g_socket_connected = False, g_image_index = 0,
                    g_image_total = 0\<rparr>"

definition text_session :: "char net_event list \<Rightarrow> char session" where
  "text_session evs =
     \<lparr>create_ret = 3, str2addr_ret = 0xC0A8010F, connect_ret = 0, send_ret = 5, incoming = evs\<rparr>"

text \<open>
  The file name as the specification words it: "the substring between the second and
  third double-quote characters following the field marker, bounded to a fixed maximum
  length", an overlong name being cut to that length. The quotes are counted after the
  first byte of the marker, which makes the substring the value of the field; the
  maximum is what \<^verbatim>\<open>char filename[256]\<close> holds before its terminator.
\<close>

definition spec_filename :: "string \<Rightarrow> string" where
  "spec_filename response =
     (case strstr response (quoted ''filename'') of
        None \<Rightarrow> []
      | Some p \<Rightarrow>
          (let after1 = tl (dropWhile (\<lambda>c. c \<noteq> dquote) (drop (p + 1) response));
               after2 = tl (dropWhile (\<lambda>c. c \<noteq> dquote) after1)
           in take 255 (takeWhile (\<lambda>c. c \<noteq> dquote) after2)))"

text \<open>
  The reply to \<^verbatim>\<open>info\<close> of the specification's scenario,
  \<^verbatim>\<open>{"index" : 3, "total" : 10, "filename" : "sunset.bin"}\<close>.
\<close>

definition sunset_reply :: string where
  "sunset_reply =
     CHR ''{'' # quoted ''index'' @ '' : 3, '' @ quoted ''total'' @ '' : 10, ''
       @ quoted ''filename'' @ '' : '' @ quoted ''sunset.bin'' @ ''}''"

text \<open>A reply to \<^verbatim>\<open>info\<close> whose file name has 300 bytes.\<close>

definition long_name_reply :: string where
  "long_name_reply = quoted ''filename'' @ '' : '' @ quoted (replicate 300 (CHR ''a''))"

text \<open>Pieces of replies to \<^verbatim>\<open>update\<close>, and globals left by an earlier cycle, for the examples.\<close>

definition update_reply_pre :: string where
  "update_reply_pre = CHR ''{'' # quoted ''current_index'' @ '' : 3, ''"

definition update_reply_post :: string where
  "update_reply_post = '', '' @ quoted ''current_index'' @ '' : 3}''"

definition stale_globals :: globals where
  "stale_globals = \<lparr>g_wifi_connected = True, g_socket_connected = False, g_image_index = 7,
                     g_image_total = 8\<rparr>"

text \<open>
  More projections of the trace: the inter-cycle and link-wait sleeps, the commands
  sent, the calls on sockets, and the calls on the panel.
\<close>

fun is_sleep :: "action \<Rightarrow> bool" where
  "is_sleep (SysSleep n) = True"
| "is_sleep a = False"

fun commands_sent :: "action list \<Rightarrow> string list" where
  "commands_sent [] = []"
| "commands_sent (NetSend fd c # tr) = c # commands_sent tr"
| "commands_sent (a # tr) = commands_sent tr"

fun socket_action :: "action \<Rightarrow> bool" where
  "socket_action SocketCreate = True"
| "socket_action (SetTimeout fd ms d) = True"
| "socket_action Str2Addr = True"
| "socket_action (Connect fd) = True"
| "socket_action (NetSend fd c) = True"
| "socket_action (NetRecv fd n) = True"
| "socket_action (NetClose fd) = True"
| "socket_action a = False"

fun panel_action :: "action \<Rightarrow> bool" where
  "panel_action DevModuleInit = True"
| "panel_action EpdInit = True"
| "panel_action (EpdDisplayFast b) = True"
| "panel_action (DevDelay n) = True"
| "panel_action EpdSleep = True"
| "panel_action DevModuleExit = True"
| "panel_action a = False"

text \<open>
  The return value and the calls of \<^verbatim>\<open>socket_send_command\<close> and of
  \<^verbatim>\<open>socket_get_image_data\<close> on a connection, with the buffer size of the main
  loop. They do not depend on the globals and on what the buffers hold (lemmas
  \<open>command_ret_eq\<close>, \<open>command_calls_eq\<close> and \<open>download_eq\<close>).
\<close>

definition command_ret :: "char session \<Rightarrow> int" where
  "command_ret s =
     cr_ret (socket_send_command s demo_globals (Some []) (Some []) RECV_BUFFER_SIZE)"

definition command_calls :: "char session \<Rightarrow> string \<Rightarrow> action list" where
  "command_calls s c =
     cr_trace (socket_send_command s demo_globals (Some c) (Some []) RECV_BUFFER_SIZE)"

definition download_ret :: "byte session \<Rightarrow> int" where
  "download_ret s = ir_ret (socket_get_image_data s (Some []) (Some 0))"

definition download_calls :: "byte session \<Rightarrow> action list" where
  "download_calls s = ir_trace (socket_get_image_data s (Some []) (Some 0))"

text \<open>
  The calls of one cycle, by the step that fails; \<open>i\<close>, \<open>t\<close>, \<open>f\<close> are the
  values logged after \<^verbatim>\<open>info\<close> and \<open>b\<close> is the buffer shown.
\<close>

definition cycle_calls :: "cycle_env \<Rightarrow> int \<Rightarrow> int \<Rightarrow> string \<Rightarrow> byte list \<Rightarrow> action list" where
  "cycle_calls e i t f b =
     (if command_ret (ce_update e) \<noteq> 0 then
        command_calls (ce_update e) ''update'' @ [SysSleep LOOP_INTERVAL_MS]
      else if command_ret (ce_info e) \<noteq> 0 then
        command_calls (ce_update e) ''update'' @ command_calls (ce_info e) ''info''
          @ [SysSleep LOOP_INTERVAL_MS]
      else if ce_malloc e = None then
        command_calls (ce_update e) ''update'' @ command_calls (ce_info e) ''info''
          @ [LogImageInfo i t f, Malloc IMAGE_BUFFER_SIZE, SysSleep LOOP_INTERVAL_MS]
      else if download_ret (ce_get_c e) \<noteq> 0 then
        command_calls (ce_update e) ''update'' @ command_calls (ce_info e) ''info''
          @ [LogImageInfo i t f, Malloc IMAGE_BUFFER_SIZE] @ download_calls (ce_get_c e)
          @ [Free, SysSleep LOOP_INTERVAL_MS]
      else if ce_dev_init e \<noteq> 0 then
        command_calls (ce_update e) ''update'' @ command_calls (ce_info e) ''info''
          @ [LogImageInfo i t f, Malloc IMAGE_BUFFER_SIZE] @ download_calls (ce_get_c e)
          @ [DevModuleInit, Free, SysSleep LOOP_INTERVAL_MS]
      else
        command_calls (ce_update e) ''update'' @ command_calls (ce_info e) ''info''
          @ [LogImageInfo i t f, Malloc IMAGE_BUFFER_SIZE] @ download_calls (ce_get_c e)
          @ [DevModuleInit, EpdInit, EpdDisplayFast b, DevDelay 30000, EpdSleep, DevDelay 500,
             DevModuleExit, Free, SysSleep LOOP_INTERVAL_MS])"

text \<open>
  The start of \<^verbatim>\<open>EPD_test_net\<close> reaches the main loop: the three WiFi calls return
  \<^verbatim>\<open>OPRT_OK\<close> and the wait for the link returns 0.
\<close>

definition startup_ok :: "startup_env \<Rightarrow> bool" where
  "startup_ok su =
     (su_wifi_init su = 0 \<and> su_set_work_mode su = 0 \<and> su_station_connect su = 0 \<and>
      fst (wifi_connect_wait 30 (su_wait_events su)
             (deliver (su_connect_events su) (st_globals (initial_state [])))) = 0)"

text \<open>
  Environments for the examples: text connections whose receive succeeds or times
  out, frame connections that deliver a whole frame or close early, a cycle made of
  them, and a start in which the link comes up during the second sleep.
\<close>

definition good_text :: "char session" where
  "good_text = text_session [Chunk ''{}'', PeerClose]"

definition bad_text :: "char session" where
  "bad_text = text_session [RecvError (- 5)]"

definition good_frame :: "byte session" where
  "good_frame = demo_session [Chunk [0, 0, 0, 2, 0xAA, 0xBB]]"

definition bad_frame :: "byte session" where
  "bad_frame = demo_session [Chunk [0, 0, 0, 5], Chunk [1, 2], PeerClose]"

definition demo_cycle ::
  "WF_EVENT_E list \<Rightarrow> char session \<Rightarrow> char session \<Rightarrow> byte list option \<Rightarrow> byte session \<Rightarrow> int
   \<Rightarrow> cycle_env"
where
  "demo_cycle evs u i m f d =
     \<lparr>ce_events = evs, ce_update = u, ce_info = i, ce_malloc = m, ce_get_c = f, ce_dev_init = d\<rparr>"

definition demo_startup :: startup_env where
  "demo_startup =
     \<lparr>su_wifi_init = 0, su_set_work_mode = 0, su_station_connect = 0, su_connect_events = [],
      su_wait_events = [[], [WFE_CONNECTED]]\<rparr>"

text \<open>The state in which the main loop is entered with the link up.\<close>

definition linked_state :: state where
  "linked_state = (initial_state (replicate 1024 NUL)) \<lparr>st_globals := demo_globals\<rparr>"

section \<open>Properties\<close>

subsection \<open>Receiving from a stream\<close>

lemma recv_le: "fst (tal_net_recv evs n) \<le> int n"
  by (induction evs n rule: tal_net_recv.induct) (auto simp: timeout_ret_def)

lemma recv_len: "0 < fst (tal_net_recv evs n) \<Longrightarrow> length (fst (snd (tal_net_recv evs n))) = nat (fst (tal_net_recv evs n))"
  by (induction evs n rule: tal_net_recv.induct) (auto simp: timeout_ret_def split: if_splits)

lemma recv_delivered_pos:
  "0 < fst (tal_net_recv evs n) \<Longrightarrow>
   delivered evs = fst (snd (tal_net_recv evs n)) @ delivered (snd (snd (tal_net_recv evs n)))"
  by (induction evs n rule: tal_net_recv.induct) (auto simp: timeout_ret_def split: if_splits)

lemma recv_delivered_nonpos:
  "0 < n \<Longrightarrow> fst (tal_net_recv evs n) \<le> 0 \<Longrightarrow> delivered evs = []"
  by (induction evs n rule: tal_net_recv.induct) (auto simp: timeout_ret_def split: if_splits)

lemma recv_delivered_some:
  "0 < n \<Longrightarrow> delivered evs \<noteq> [] \<Longrightarrow> 0 < fst (tal_net_recv evs n)"
  using recv_delivered_nonpos[of n evs] by force

subsection \<open>The receive loop\<close>

declare recv_image_loop.simps [simp del]

lemma to_recv_of_le: "to_recv_of image_size received \<le> 4096"
  and to_recv_of_le_rest: "to_recv_of image_size received \<le> image_size - received"
  and to_recv_of_pos: "received < image_size \<Longrightarrow> 0 < to_recv_of image_size received"
  by (simp_all add: to_recv_of_def)

lemma loop_done:
  "\<not> received < image_size \<Longrightarrow>
   recv_image_loop fd image_size received data evs = (True, received, data, [])"
  by (subst recv_image_loop.simps) simp

lemma loop_fail:
  "received < image_size \<Longrightarrow> fst (tal_net_recv evs (to_recv_of image_size received)) \<le> 0 \<Longrightarrow>
   recv_image_loop fd image_size received data evs =
     (False, received, data, [NetRecv fd (to_recv_of image_size received), NetClose fd])"
  by (subst recv_image_loop.simps) (simp add: to_recv_of_def Let_def)

lemma loop_step:
  "received < image_size \<Longrightarrow> 0 < fst (tal_net_recv evs (to_recv_of image_size received)) \<Longrightarrow>
   recv_image_loop fd image_size received data evs =
     (let r = tal_net_recv evs (to_recv_of image_size received);
          l = recv_image_loop fd image_size (received + nat (fst r))
                (write_at data received (fst (snd r))) (snd (snd r))
      in (fst l, fst (snd l), fst (snd (snd l)),
          NetRecv fd (to_recv_of image_size received) # snd (snd (snd l))))"
  by (subst recv_image_loop.simps) (simp add: to_recv_of_def Let_def)

lemma loop_induct [case_names finished short more]:
  assumes "\<And>received data evs. \<not> received < image_size \<Longrightarrow> P received data evs"
    and "\<And>received data evs. received < image_size \<Longrightarrow>
           fst (tal_net_recv evs (to_recv_of image_size received)) \<le> 0 \<Longrightarrow> P received data evs"
    and "\<And>received data evs r. received < image_size \<Longrightarrow>
           r = tal_net_recv evs (to_recv_of image_size received) \<Longrightarrow> 0 < fst r \<Longrightarrow>
           P (received + nat (fst r)) (write_at data received (fst (snd r))) (snd (snd r)) \<Longrightarrow>
           P received data evs"
  shows "P received data evs"
proof (induction "image_size - received" arbitrary: received data evs rule: less_induct)
  case (less received data evs)
  show ?case
  proof (cases "received < image_size")
    case False
    then show ?thesis by (rule assms(1))
  next
    case True
    define r where "r = tal_net_recv evs (to_recv_of image_size received)"
    show ?thesis
    proof (cases "fst r \<le> 0")
      case True
      with \<open>received < image_size\<close> show ?thesis unfolding r_def by (rule assms(2))
    next
      case False
      then have pos: "0 < fst r" by simp
      have "image_size - (received + nat (fst r)) < image_size - received"
        using pos \<open>received < image_size\<close> by linarith
      then have "P (received + nat (fst r)) (write_at data received (fst (snd r))) (snd (snd r))"
        by (rule less)
      with \<open>received < image_size\<close> r_def pos show ?thesis by (rule assms(3))
    qed
  qed
qed

lemma step_bound:
  assumes "received < image_size"
  shows "received + nat (fst (tal_net_recv evs (to_recv_of image_size received))) \<le> image_size"
proof -
  have "fst (tal_net_recv evs (to_recv_of image_size received)) \<le> int (to_recv_of image_size received)"
    by (rule recv_le)
  moreover have "to_recv_of image_size received \<le> image_size - received"
    by (rule to_recv_of_le_rest)
  ultimately show ?thesis using assms by linarith
qed

lemma loop_success_received:
  "received \<le> image_size \<Longrightarrow> fst (recv_image_loop fd image_size received data evs) \<Longrightarrow>
   fst (snd (recv_image_loop fd image_size received data evs)) = image_size"
proof (induction received data evs rule: loop_induct [where image_size = image_size])
  case (finished received data evs)
  then show ?case by (simp add: loop_done)
next
  case (short received data evs)
  then show ?case by (simp add: loop_fail)
next
  case (more received data evs r)
  from more.hyps(1) have "received + nat (fst r) \<le> image_size"
    unfolding more.hyps(2) by (rule step_bound)
  with more show ?case by (simp add: loop_step Let_def)
qed

lemma loop_success_delivered:
  "received \<le> image_size \<Longrightarrow> fst (recv_image_loop fd image_size received data evs) \<Longrightarrow>
   image_size - received \<le> length (delivered evs)"
proof (induction received data evs rule: loop_induct [where image_size = image_size])
  case (finished received data evs)
  then show ?case by simp
next
  case (short received data evs)
  then show ?case by (simp add: loop_fail)
next
  case (more received data evs r)
  from more.hyps(1) have b: "received + nat (fst r) \<le> image_size"
    unfolding more.hyps(2) by (rule step_bound)
  have d: "delivered evs = fst (snd r) @ delivered (snd (snd r))"
    and n: "length (fst (snd r)) = nat (fst r)"
    using more.hyps(3) unfolding more.hyps(2) by (rule recv_delivered_pos, rule recv_len)
  have "fst (recv_image_loop fd image_size (received + nat (fst r))
          (write_at data received (fst (snd r))) (snd (snd r)))"
    using more.prems(2) more.hyps by (simp add: loop_step Let_def)
  with more.IH b have "image_size - (received + nat (fst r)) \<le> length (delivered (snd (snd r)))"
    by simp
  then show ?case using d n by simp
qed

lemma loop_complete:
  "received \<le> image_size \<Longrightarrow> image_size \<le> length data \<Longrightarrow>
   image_size - received \<le> length (delivered evs) \<Longrightarrow>
   fst (recv_image_loop fd image_size received data evs) \<and>
   fst (snd (snd (recv_image_loop fd image_size received data evs))) =
     take received data @ take (image_size - received) (delivered evs) @ drop image_size data"
proof (induction received data evs rule: loop_induct [where image_size = image_size])
  case (finished received data evs)
  then show ?case by (simp add: loop_done)
next
  case (short received data evs)
  have "delivered evs = []"
    using to_recv_of_pos [OF short.hyps(1)] short.hyps(2) by (rule recv_delivered_nonpos)
  with short show ?case by simp
next
  case (more received data evs r)
  from more.hyps(1) have b: "received + nat (fst r) \<le> image_size"
    unfolding more.hyps(2) by (rule step_bound)
  have d: "delivered evs = fst (snd r) @ delivered (snd (snd r))"
    and n: "length (fst (snd r)) = nat (fst r)"
    using more.hyps(3) unfolding more.hyps(2) by (rule recv_delivered_pos, rule recv_len)
  let ?data = "write_at data received (fst (snd r))"
  have len: "length ?data = length data"
    using b n more.prems by (simp add: write_at_def)
  have rest: "image_size - (received + nat (fst r)) \<le> length (delivered (snd (snd r)))"
    using more.prems(3) d n by simp
  note IH = more.IH [OF b _ rest, unfolded len, OF more.prems(2)]
  have t: "take (received + nat (fst r)) ?data = take received data @ fst (snd r)"
    using b n more.prems by (simp add: write_at_def)
  have dr: "drop image_size ?data = drop image_size data"
    using b n more.prems by (simp add: write_at_def)
  have tk: "take (image_size - received) (delivered evs) =
      fst (snd r) @ take (image_size - (received + nat (fst r))) (delivered (snd (snd r)))"
    using b n d by simp
  show ?case
    using IH more.hyps(1,3) by (simp add: loop_step Let_def t dr tk more.hyps(2) [symmetric])
qed

lemma loop_short_received:
  "received \<le> image_size \<Longrightarrow> length (delivered evs) < image_size - received \<Longrightarrow>
   \<not> fst (recv_image_loop fd image_size received data evs) \<and>
   fst (snd (recv_image_loop fd image_size received data evs)) = received + length (delivered evs)"
proof (induction received data evs rule: loop_induct [where image_size = image_size])
  case (finished received data evs)
  then show ?case by simp
next
  case (short received data evs)
  have "delivered evs = []"
    using to_recv_of_pos [OF short.hyps(1)] short.hyps(2) by (rule recv_delivered_nonpos)
  with short show ?case by (simp add: loop_fail)
next
  case (more received data evs r)
  from more.hyps(1) have b: "received + nat (fst r) \<le> image_size"
    unfolding more.hyps(2) by (rule step_bound)
  have d: "delivered evs = fst (snd r) @ delivered (snd (snd r))"
    and n: "length (fst (snd r)) = nat (fst r)"
    using more.hyps(3) unfolding more.hyps(2) by (rule recv_delivered_pos, rule recv_len)
  have "length (delivered (snd (snd r))) < image_size - (received + nat (fst r))"
    using more.prems(2) d n by simp
  with more.IH b have
    "\<not> fst (recv_image_loop fd image_size (received + nat (fst r))
          (write_at data received (fst (snd r))) (snd (snd r))) \<and>
     fst (snd (recv_image_loop fd image_size (received + nat (fst r))
          (write_at data received (fst (snd r))) (snd (snd r)))) =
       received + nat (fst r) + length (delivered (snd (snd r)))"
    by simp
  then show ?case
    using more.hyps(1,3) d n by (simp add: loop_step Let_def more.hyps(2) [symmetric])
qed

lemma loop_trace_closes:
  "filter is_close (snd (snd (snd (recv_image_loop fd image_size received data evs)))) =
     (if fst (recv_image_loop fd image_size received data evs) then [] else [NetClose fd])"
proof (induction received data evs rule: loop_induct [where image_size = image_size])
  case (finished received data evs)
  then show ?case by (simp add: loop_done)
next
  case (short received data evs)
  then show ?case by (simp add: loop_fail)
next
  case (more received data evs r)
  then show ?case by (simp add: loop_step Let_def)
qed

lemma loop_trace_last:
  "\<not> fst (recv_image_loop fd image_size received data evs) \<Longrightarrow>
   snd (snd (snd (recv_image_loop fd image_size received data evs))) \<noteq> [] \<and>
   last (snd (snd (snd (recv_image_loop fd image_size received data evs)))) = NetClose fd"
proof (induction received data evs rule: loop_induct [where image_size = image_size])
  case (finished received data evs)
  then show ?case by (simp add: loop_done)
next
  case (short received data evs)
  then show ?case by (simp add: loop_fail)
next
  case (more received data evs r)
  then show ?case by (simp add: loop_step Let_def)
qed

lemma loop_trace_requests:
  "\<forall>a \<in> set (snd (snd (snd (recv_image_loop fd image_size received data evs)))).
     a = NetClose fd \<or> (\<exists>n. a = NetRecv fd n \<and> 0 < n \<and> n \<le> 4096)"
proof (induction received data evs rule: loop_induct [where image_size = image_size])
  case (finished received data evs)
  then show ?case by (simp add: loop_done)
next
  case (short received data evs)
  then show ?case by (simp add: loop_fail to_recv_of_le to_recv_of_pos)
next
  case (more received data evs r)
  then show ?case by (simp add: loop_step Let_def to_recv_of_le to_recv_of_pos)
qed

lemma header_whole:
  assumes "tal_net_recv evs 4 = (4, hdr, rest)"
  shows "length hdr = 4" and "write_at (replicate 4 0) 0 hdr = hdr"
    and "delivered evs = hdr @ delivered rest"
proof -
  have pos: "0 < fst (tal_net_recv evs 4)" using assms by simp
  from recv_len [OF pos] show l: "length hdr = 4" using assms by simp
  then show "write_at (replicate 4 0) 0 hdr = hdr" by (simp add: write_at_def)
  from recv_delivered_pos [OF pos] show "delivered evs = hdr @ delivered rest"
    using assms by simp
qed

subsection \<open>The frame download\<close>

lemma get_image_oversize:
  assumes "ready s" and "tal_net_recv (incoming s) 4 = (4, hdr, rest)"
    and "IMAGE_BUFFER_SIZE < unat (be32 hdr)"
  shows "socket_get_image_data s (Some buf) (Some sz) =
     \<lparr>ir_ret = - 1, ir_data = Some buf, ir_data_size = Some sz, ir_image_size = be32 hdr,
      ir_received = 0, ir_trace = header_trace (create_ret s) @ [NetClose (create_ret s)]\<rparr>"
  using assms header_whole(2) [OF assms(2)]
  by (simp add: socket_get_image_data_def ready_def Let_def header_trace_def)

lemma get_image_body:
  assumes "ready s" and "tal_net_recv (incoming s) 4 = (4, hdr, rest)"
    and "unat (be32 hdr) \<le> IMAGE_BUFFER_SIZE"
  shows "socket_get_image_data s (Some buf) (Some sz) =
     (let l = recv_image_loop (create_ret s) (unat (be32 hdr)) 0 buf rest in
      \<lparr>ir_ret = (if fst l then 0 else - 1), ir_data = Some (fst (snd (snd l))),
       ir_data_size = Some (be32 hdr), ir_image_size = be32 hdr, ir_received = fst (snd l),
       ir_trace = header_trace (create_ret s) @ snd (snd (snd l))
                    @ (if fst l then [NetClose (create_ret s)] else [])\<rparr>)"
  using assms header_whole(2) [OF assms(2)]
  by (simp add: socket_get_image_data_def ready_def Let_def header_trace_def)

lemma get_image_success:
  assumes "ir_ret (socket_get_image_data s data data_size) = 0"
  obtains buf sz hdr rest where "data = Some buf" and "data_size = Some sz" and "ready s"
    and "tal_net_recv (incoming s) 4 = (4, hdr, rest)"
    and "unat (be32 hdr) \<le> IMAGE_BUFFER_SIZE"
    and "fst (recv_image_loop (create_ret s) (unat (be32 hdr)) 0 buf rest)"
proof -
  from assms obtain buf sz where d: "data = Some buf" "data_size = Some sz"
    by (cases data; cases data_size) (simp_all add: socket_get_image_data_def)
  from assms have r: "ready s" unfolding d ready_def
    by (simp add: socket_get_image_data_def Let_def split: if_splits)
  obtain n hdr rest where h: "tal_net_recv (incoming s) 4 = (n, hdr, rest)"
    by (cases "tal_net_recv (incoming s) 4") auto
  from assms r have n: "n = 4" unfolding d ready_def
    by (simp add: socket_get_image_data_def Let_def h split: if_splits)
  have cap: "unat (be32 hdr) \<le> IMAGE_BUFFER_SIZE"
  proof (rule ccontr)
    assume "\<not> unat (be32 hdr) \<le> IMAGE_BUFFER_SIZE"
    then have "IMAGE_BUFFER_SIZE < unat (be32 hdr)" by simp
    from get_image_oversize [OF r h [unfolded n] this, of buf sz] assms show False
      unfolding d by simp
  qed
  have "fst (recv_image_loop (create_ret s) (unat (be32 hdr)) 0 buf rest)"
    using assms get_image_body [OF r h [unfolded n] cap, of buf sz] unfolding d
    by (simp add: Let_def split: if_splits)
  with d r h [unfolded n] cap show thesis by (rule that)
qed

lemma get_image_ret: "ir_ret (socket_get_image_data s data data_size) \<in> {0, - 1}"
  by (simp add: socket_get_image_data_def Let_def)

text \<open>
  Claim C6. A download that returns 0 has received exactly the declared number of
  bytes: the local \<^verbatim>\<open>received\<close> equals \<^verbatim>\<open>image_size\<close>, which is the length the
  first four bytes of the peer declare, and the peer has delivered the header and that
  many frame bytes before any close or fault. Every other return is \<open>-1\<close>. When the
  peer closes, or a read fails, before the declared number of frame bytes has been
  delivered, the download returns \<open>-1\<close>.
\<close>

theorem no_partial_frame:
  "(ir_ret (socket_get_image_data s data data_size) = 0 \<longrightarrow>
      ir_received (socket_get_image_data s data data_size)
        = unat (ir_image_size (socket_get_image_data s data data_size)) \<and>
      ir_data_size (socket_get_image_data s data data_size)
        = Some (ir_image_size (socket_get_image_data s data data_size)) \<and>
      ir_image_size (socket_get_image_data s data data_size)
        = be32 (take 4 (delivered (incoming s))) \<and>
      4 + unat (ir_image_size (socket_get_image_data s data data_size))
        \<le> length (delivered (incoming s))) \<and>
   (ir_ret (socket_get_image_data s data data_size) \<noteq> 0 \<longrightarrow>
      ir_ret (socket_get_image_data s data data_size) = - 1) \<and>
   (ready s \<and> tal_net_recv (incoming s) 4 = (4, hdr, rest) \<and>
      length (delivered rest) < unat (be32 hdr) \<longrightarrow>
      ir_ret (socket_get_image_data s data data_size) = - 1)"
proof (intro conjI impI)
  assume ok: "ir_ret (socket_get_image_data s data data_size) = 0"
  then obtain buf sz hdr' rest' where d: "data = Some buf" "data_size = Some sz"
    and r: "ready s" and h: "tal_net_recv (incoming s) 4 = (4, hdr', rest')"
    and cap: "unat (be32 hdr') \<le> IMAGE_BUFFER_SIZE"
    and l: "fst (recv_image_loop (create_ret s) (unat (be32 hdr')) 0 buf rest')"
    by (rule get_image_success)
  note body = get_image_body [OF r h cap, of buf sz, folded d]
  note hw = header_whole [OF h]
  show "ir_received (socket_get_image_data s data data_size)
        = unat (ir_image_size (socket_get_image_data s data data_size))"
    using loop_success_received [OF _ l] by (simp add: body Let_def)
  show "ir_data_size (socket_get_image_data s data data_size)
        = Some (ir_image_size (socket_get_image_data s data data_size))"
    by (simp add: body Let_def)
  show "ir_image_size (socket_get_image_data s data data_size)
        = be32 (take 4 (delivered (incoming s)))"
    using hw by (simp add: body Let_def)
  show "4 + unat (ir_image_size (socket_get_image_data s data data_size))
        \<le> length (delivered (incoming s))"
    using loop_success_delivered [OF _ l] hw by (simp add: body Let_def)
next
  assume "ir_ret (socket_get_image_data s data data_size) \<noteq> 0"
  then show "ir_ret (socket_get_image_data s data data_size) = - 1"
    using get_image_ret [of s data data_size] by simp
next
  assume a: "ready s \<and> tal_net_recv (incoming s) 4 = (4, hdr, rest) \<and>
      length (delivered rest) < unat (be32 hdr)"
  show "ir_ret (socket_get_image_data s data data_size) = - 1"
  proof (rule ccontr)
    assume "ir_ret (socket_get_image_data s data data_size) \<noteq> - 1"
    then have ok: "ir_ret (socket_get_image_data s data data_size) = 0"
      using get_image_ret [of s data data_size] by simp
    then obtain buf sz hdr' rest' where h: "tal_net_recv (incoming s) 4 = (4, hdr', rest')"
      and l: "fst (recv_image_loop (create_ret s) (unat (be32 hdr')) 0 buf rest')"
      by (rule get_image_success)
    from h a have "hdr' = hdr" "rest' = rest" by simp_all
    with loop_success_delivered [OF _ l] a show False by simp
  qed
qed

lemma demo_ready: "ready (demo_session evs)"
  by (simp add: ready_def demo_session_def)

text \<open>Unfolding the download on a given connection.\<close>

lemmas eval_image = socket_get_image_data_def demo_session_def Let_def be32_def write_at_def
  IMAGE_BUFFER_SIZE_def recv_image_loop.simps timeout_ret_def

theorem no_partial_frame_witness:
  "ir_ret (socket_get_image_data (demo_session [Chunk [0, 0, 0, 2, 0xAA], Chunk [0xBB]])
      (Some [1, 2, 3]) (Some 9)) = 0 \<and>
   ir_received (socket_get_image_data (demo_session [Chunk [0, 0, 0, 2, 0xAA], Chunk [0xBB]])
      (Some [1, 2, 3]) (Some 9)) = 2 \<and>
   ir_data (socket_get_image_data (demo_session [Chunk [0, 0, 0, 2, 0xAA], Chunk [0xBB]])
      (Some [1, 2, 3]) (Some 9)) = Some [0xAA, 0xBB, 3] \<and>
   ready (demo_session [Chunk [0, 0, 0, 5], Chunk [1, 2], PeerClose]) \<and>
   tal_net_recv (incoming (demo_session [Chunk [0, 0, 0, 5], Chunk [1, 2], PeerClose])) 4
     = (4, [0, 0, 0, 5], [Chunk [1, 2], PeerClose]) \<and>
   length (delivered [Chunk [1, 2], PeerClose]) < unat (be32 [0, 0, 0, 5]) \<and>
   ir_ret (socket_get_image_data (demo_session [Chunk [0, 0, 0, 5], Chunk [1, 2], PeerClose])
      (Some [1, 2, 3, 4, 5, 6]) (Some 9)) = - 1"
proof -
  have ok: "ir_ret (socket_get_image_data (demo_session [Chunk [0, 0, 0, 2, 0xAA], Chunk [0xBB]])
      (Some [1, 2, 3]) (Some 9)) = 0"
    by (simp add: eval_image)
  have d: "ir_data (socket_get_image_data (demo_session [Chunk [0, 0, 0, 2, 0xAA], Chunk [0xBB]])
      (Some [1, 2, 3]) (Some 9)) = Some [0xAA, 0xBB, 3]"
    by (simp add: eval_image)
  have sz: "ir_image_size (socket_get_image_data (demo_session [Chunk [0, 0, 0, 2, 0xAA], Chunk [0xBB]])
      (Some [1, 2, 3]) (Some 9)) = 2"
    by (simp add: eval_image)
  have h: "ready (demo_session [Chunk [0, 0, 0, 5], Chunk [1, 2], PeerClose]) \<and>
   tal_net_recv (incoming (demo_session [Chunk [0, 0, 0, 5], Chunk [1, 2], PeerClose])) 4
     = (4, [0, 0, 0, 5], [Chunk [1, 2], PeerClose]) \<and>
   length (delivered [Chunk [1, 2], PeerClose]) < unat (be32 [0, 0, 0, 5])"
    by (simp add: demo_session_def ready_def be32_def)
  from no_partial_frame [where s = "demo_session [Chunk [0, 0, 0, 2, 0xAA], Chunk [0xBB]]"
      and data = "Some [1, 2, 3]" and data_size = "Some 9"] ok sz
  have r: "ir_received (socket_get_image_data (demo_session [Chunk [0, 0, 0, 2, 0xAA], Chunk [0xBB]])
      (Some [1, 2, 3]) (Some 9)) = 2"
    by simp
  from no_partial_frame [where s = "demo_session [Chunk [0, 0, 0, 5], Chunk [1, 2], PeerClose]"
      and hdr = "[0, 0, 0, 5]" and rest = "[Chunk [1, 2], PeerClose]"
      and data = "Some [1, 2, 3, 4, 5, 6]" and data_size = "Some 9"] h
  have f: "ir_ret (socket_get_image_data (demo_session [Chunk [0, 0, 0, 5], Chunk [1, 2], PeerClose])
      (Some [1, 2, 3, 4, 5, 6]) (Some 9)) = - 1"
    by blast
  from ok r d h f show ?thesis by blast
qed

text \<open>
  Claim C5. When the header has been read and declares more than
  \<^verbatim>\<open>IMAGE_BUFFER_SIZE\<close> bytes, the download returns \<open>-1\<close>; the only receive of the
  call is the one of the four header bytes, the last call closes the socket, and the
  buffer and \<^verbatim>\<open>*data_size\<close> are as they were.
\<close>

theorem oversize_frame_rejected:
  assumes "ready s" and "tal_net_recv (incoming s) 4 = (4, hdr, rest)"
    and "IMAGE_BUFFER_SIZE < unat (be32 hdr)"
  shows "ir_ret (socket_get_image_data s (Some buf) (Some sz)) = - 1 \<and>
    ir_trace (socket_get_image_data s (Some buf) (Some sz)) =
      [SocketCreate, SetTimeout (create_ret s) 10000 TRANS_RECV,
       SetTimeout (create_ret s) 5000 TRANS_SEND, Str2Addr, Connect (create_ret s),
       NetSend (create_ret s) ''get_c'', NetRecv (create_ret s) 4, NetClose (create_ret s)] \<and>
    ir_data (socket_get_image_data s (Some buf) (Some sz)) = Some buf \<and>
    ir_data_size (socket_get_image_data s (Some buf) (Some sz)) = Some sz"
  by (simp add: get_image_oversize [OF assms] header_trace_def)

theorem oversize_frame_rejected_witness:
  "ready (demo_session [Chunk [0, 2, 0, 0], Chunk [1, 2, 3]]) \<and>
   tal_net_recv (incoming (demo_session [Chunk [0, 2, 0, 0], Chunk [1, 2, 3]])) 4
     = (4, [0, 2, 0, 0], [Chunk [1, 2, 3]]) \<and>
   IMAGE_BUFFER_SIZE < unat (be32 [0, 2, 0, 0]) \<and>
   ir_ret (socket_get_image_data (demo_session [Chunk [0, 2, 0, 0], Chunk [1, 2, 3]])
     (Some (replicate 120000 0)) (Some 7)) = - 1 \<and>
   ir_trace (socket_get_image_data (demo_session [Chunk [0, 2, 0, 0], Chunk [1, 2, 3]])
     (Some (replicate 120000 0)) (Some 7)) =
     [SocketCreate, SetTimeout 3 10000 TRANS_RECV, SetTimeout 3 5000 TRANS_SEND, Str2Addr,
      Connect 3, NetSend 3 ''get_c'', NetRecv 3 4, NetClose 3] \<and>
   ir_data_size (socket_get_image_data (demo_session [Chunk [0, 2, 0, 0], Chunk [1, 2, 3]])
     (Some (replicate 120000 0)) (Some 7)) = Some 7"
proof -
  have r: "ready (demo_session [Chunk [0, 2, 0, 0], Chunk [1, 2, 3]])"
    by (rule demo_ready)
  have h: "tal_net_recv (incoming (demo_session [Chunk [0, 2, 0, 0], Chunk [1, 2, 3]])) 4
     = (4, [0, 2, 0, 0], [Chunk [1, 2, 3]])"
    by (simp add: demo_session_def)
  have c: "IMAGE_BUFFER_SIZE < unat (be32 [0, 2, 0, 0])"
    by (simp add: be32_def IMAGE_BUFFER_SIZE_def)
  have f: "create_ret (demo_session [Chunk [0, 2, 0, 0], Chunk [1, 2, 3]]) = 3"
    by (simp add: demo_session_def)
  from oversize_frame_rejected [OF r h c, of "replicate 120000 0" 7] r h c
  show ?thesis unfolding f by blast
qed

text \<open>
  Claim C10. When the header has been read and declares at most
  \<^verbatim>\<open>IMAGE_BUFFER_SIZE\<close> bytes, \<^verbatim>\<open>*data_size\<close> holds the declared length at the
  return, whatever the receive loop has met. When the peer delivers fewer frame bytes
  than declared, the call returns \<open>-1\<close>, \<^verbatim>\<open>received\<close> is the number of bytes
  delivered, and \<^verbatim>\<open>*data_size\<close> is the declared length all the same.
\<close>

theorem data_size_set_before_frame:
  assumes "ready s" and "tal_net_recv (incoming s) 4 = (4, hdr, rest)"
    and "unat (be32 hdr) \<le> IMAGE_BUFFER_SIZE"
  shows "ir_data_size (socket_get_image_data s (Some buf) (Some sz)) = Some (be32 hdr) \<and>
    (length (delivered rest) < unat (be32 hdr) \<longrightarrow>
       ir_ret (socket_get_image_data s (Some buf) (Some sz)) = - 1 \<and>
       ir_received (socket_get_image_data s (Some buf) (Some sz)) = length (delivered rest) \<and>
       ir_data_size (socket_get_image_data s (Some buf) (Some sz)) = Some (be32 hdr))"
proof -
  note body = get_image_body [OF assms, of buf sz]
  have 1: "ir_data_size (socket_get_image_data s (Some buf) (Some sz)) = Some (be32 hdr)"
    by (simp add: body Let_def)
  have 2: "ir_ret (socket_get_image_data s (Some buf) (Some sz)) = - 1 \<and>
       ir_received (socket_get_image_data s (Some buf) (Some sz)) = length (delivered rest)"
    if "length (delivered rest) < unat (be32 hdr)"
    using loop_short_received [of 0 "unat (be32 hdr)" rest "create_ret s" buf] that
    by (simp add: body Let_def)
  from 1 2 show ?thesis by blast
qed

theorem data_size_set_before_frame_witness:
  "ready (demo_session [Chunk [0, 0, 0, 5], Chunk [1, 2], PeerClose]) \<and>
   tal_net_recv (incoming (demo_session [Chunk [0, 0, 0, 5], Chunk [1, 2], PeerClose])) 4
     = (4, [0, 0, 0, 5], [Chunk [1, 2], PeerClose]) \<and>
   unat (be32 [0, 0, 0, 5]) \<le> IMAGE_BUFFER_SIZE \<and>
   length (delivered [Chunk [1, 2], PeerClose]) < unat (be32 [0, 0, 0, 5]) \<and>
   ir_ret (socket_get_image_data (demo_session [Chunk [0, 0, 0, 5], Chunk [1, 2], PeerClose])
     (Some (replicate 120000 0)) (Some 0)) = - 1 \<and>
   ir_received (socket_get_image_data (demo_session [Chunk [0, 0, 0, 5], Chunk [1, 2], PeerClose])
     (Some (replicate 120000 0)) (Some 0)) = 2 \<and>
   ir_data_size (socket_get_image_data (demo_session [Chunk [0, 0, 0, 5], Chunk [1, 2], PeerClose])
     (Some (replicate 120000 0)) (Some 0)) = Some 5"
proof -
  have r: "ready (demo_session [Chunk [0, 0, 0, 5], Chunk [1, 2], PeerClose])"
    by (rule demo_ready)
  have h: "tal_net_recv (incoming (demo_session [Chunk [0, 0, 0, 5], Chunk [1, 2], PeerClose])) 4
     = (4, [0, 0, 0, 5], [Chunk [1, 2], PeerClose])"
    by (simp add: demo_session_def)
  have b: "be32 [0, 0, 0, 5] = 5"
    by (simp add: be32_def)
  have c: "unat (be32 [0, 0, 0, 5]) \<le> IMAGE_BUFFER_SIZE"
    by (simp add: b IMAGE_BUFFER_SIZE_def)
  have d: "length (delivered [Chunk [1 :: byte, 2], PeerClose]) = 2"
    by simp
  from data_size_set_before_frame [OF r h c, of "replicate 120000 0" 0] r h c
  show ?thesis unfolding b d by simp
qed

text \<open>
  The download when the four header bytes come with the first receive: however the
  peer cuts the frame into segments, if it delivers the declared number of bytes the
  call returns 0, \<^verbatim>\<open>*data_size\<close> is the declared length, the front of the buffer
  holds the frame, the rest of the buffer is untouched, and no receive asks for more
  than 4096 bytes.
\<close>

lemma frame_download_whole_header:
  assumes "ready s" and "tal_net_recv (incoming s) 4 = (4, hdr, rest)"
    and "unat (be32 hdr) \<le> IMAGE_BUFFER_SIZE" and "IMAGE_BUFFER_SIZE \<le> length buf"
    and "unat (be32 hdr) \<le> length (delivered rest)"
  shows "ir_ret (socket_get_image_data s (Some buf) (Some sz)) = 0"
    and "ir_data_size (socket_get_image_data s (Some buf) (Some sz)) = Some (be32 hdr)"
    and "ir_data (socket_get_image_data s (Some buf) (Some sz)) =
           Some (take (unat (be32 hdr)) (delivered rest) @ drop (unat (be32 hdr)) buf)"
    and "\<forall>n. NetRecv (create_ret s) n \<in> set (ir_trace (socket_get_image_data s (Some buf) (Some sz)))
           \<longrightarrow> n \<le> 4096"
proof -
  note body = get_image_body [OF assms(1-3), of buf sz]
  have len: "unat (be32 hdr) \<le> length buf" using assms(3,4) by simp
  from loop_complete [of 0 "unat (be32 hdr)" buf rest "create_ret s"] len assms(5)
  have l: "fst (recv_image_loop (create_ret s) (unat (be32 hdr)) 0 buf rest)"
    and d: "fst (snd (snd (recv_image_loop (create_ret s) (unat (be32 hdr)) 0 buf rest))) =
       take (unat (be32 hdr)) (delivered rest) @ drop (unat (be32 hdr)) buf"
    by simp_all
  show "ir_ret (socket_get_image_data s (Some buf) (Some sz)) = 0"
    by (simp add: body Let_def l)
  show "ir_data_size (socket_get_image_data s (Some buf) (Some sz)) = Some (be32 hdr)"
    by (simp add: body Let_def)
  show "ir_data (socket_get_image_data s (Some buf) (Some sz)) =
           Some (take (unat (be32 hdr)) (delivered rest) @ drop (unat (be32 hdr)) buf)"
    by (simp add: body Let_def d)
  show "\<forall>n. NetRecv (create_ret s) n \<in> set (ir_trace (socket_get_image_data s (Some buf) (Some sz)))
           \<longrightarrow> n \<le> 4096"
    using loop_trace_requests [of "create_ret s" "unat (be32 hdr)" 0 buf rest]
    by (auto simp add: body Let_def l header_trace_def)
qed

text \<open>
  Claim C1 says that for every declared length within the capacity the download
  returns 0 with the frame in the buffer, however the peer cuts the stream into
  segments. The code does so when the header comes whole (lemma
  \<open>frame_download_whole_header\<close>), and fails when the header itself is cut: the peer
  sends the header of a two byte frame and the two bytes, and the stream reaches the
  client in segments of two bytes. The first receive returns two bytes of the header,
  and the download gives up: it returns \<open>-1\<close>, and the buffer and \<^verbatim>\<open>*data_size\<close> are
  as they were. The same bytes with the header in one segment are downloaded.
\<close>

theorem split_header_fails:
  "delivered [Chunk [0, 0], Chunk [0, 2], Chunk [0xAA, 0xBB :: byte]] = [0, 0, 0, 2, 0xAA, 0xBB] \<and>
   unat (be32 [0, 0, 0, 2]) \<le> IMAGE_BUFFER_SIZE \<and>
   socket_get_image_data (demo_session [Chunk [0, 0], Chunk [0, 2], Chunk [0xAA, 0xBB]])
       (Some buf) (Some sz) =
     \<lparr>ir_ret = - 1, ir_data = Some buf, ir_data_size = Some sz, ir_image_size = 0,
      ir_received = 0,
      ir_trace = [SocketCreate, SetTimeout 3 10000 TRANS_RECV, SetTimeout 3 5000 TRANS_SEND,
                  Str2Addr, Connect 3, NetSend 3 ''get_c'', NetRecv 3 4, NetClose 3]\<rparr> \<and>
   ir_ret (socket_get_image_data (demo_session [Chunk [0, 0, 0, 2], Chunk [0xAA, 0xBB]])
       (Some buf) (Some sz)) = 0"
  by (simp add: eval_image)

subsection \<open>The command channel\<close>

lemma send_command_closes:
  "filter is_close (cr_trace (socket_send_command s g cmd response resp_size)) =
     (if SocketCreate \<in> set (cr_trace (socket_send_command s g cmd response resp_size)) \<and>
         0 \<le> create_ret s
      then [NetClose (create_ret s)] else [])"
  by (simp add: socket_send_command_def Let_def)

lemma send_command_last:
  "SocketCreate \<in> set (cr_trace (socket_send_command s g cmd response resp_size)) \<Longrightarrow>
   0 \<le> create_ret s \<Longrightarrow>
   last (cr_trace (socket_send_command s g cmd response resp_size)) = NetClose (create_ret s)"
  by (simp add: socket_send_command_def Let_def split: if_splits)

lemma get_image_closes:
  "filter is_close (ir_trace (socket_get_image_data s data data_size)) =
     (if SocketCreate \<in> set (ir_trace (socket_get_image_data s data data_size)) \<and>
         0 \<le> create_ret s
      then [NetClose (create_ret s)] else [])"
  by (simp add: socket_get_image_data_def Let_def loop_trace_closes)

lemma get_image_last:
  "SocketCreate \<in> set (ir_trace (socket_get_image_data s data data_size)) \<Longrightarrow>
   0 \<le> create_ret s \<Longrightarrow>
   last (ir_trace (socket_get_image_data s data data_size)) = NetClose (create_ret s)"
  by (simp add: socket_get_image_data_def Let_def loop_trace_last split: if_splits)

lemma send_command_ready:
  assumes "ready s" and "0 < resp_size"
  shows "socket_send_command s g (Some cmd) (Some resp) resp_size =
    (let r = tal_net_recv (incoming s) (nat (resp_size - 1));
         zeroed = memset0 resp (nat resp_size)
     in \<lparr>cr_ret = (if fst r < 0 then - 1 else 0),
         cr_response = Some (if 0 < fst r then (write_at zeroed 0 (fst (snd r))) [nat (fst r) := NUL]
                             else zeroed),
         cr_globals = (if fst r < 0 then g else g \<lparr>g_socket_connected := False\<rparr>),
         cr_trace = command_trace (create_ret s) cmd (nat (resp_size - 1))\<rparr>)"
  using assms by (simp add: socket_send_command_def ready_def Let_def command_trace_def)

lemma recv_nonpos_empty: "fst (tal_net_recv evs n) \<le> 0 \<Longrightarrow> fst (snd (tal_net_recv evs n)) = []"
  by (induction evs n rule: tal_net_recv.induct) (auto simp: timeout_ret_def split: if_splits)

lemma reply_buffer:
  assumes "0 < fst (tal_net_recv evs (n - 1))" and "n \<le> length resp"
  shows "(write_at (memset0 resp n) 0 (fst (snd (tal_net_recv evs (n - 1)))))
           [nat (fst (tal_net_recv evs (n - 1))) := NUL] =
         fst (snd (tal_net_recv evs (n - 1)))
           @ replicate (n - length (fst (snd (tal_net_recv evs (n - 1))))) NUL @ drop n resp"
proof -
  define bs where "bs = fst (snd (tal_net_recv evs (n - 1)))"
  have len: "length bs = nat (fst (tal_net_recv evs (n - 1)))"
    unfolding bs_def using assms(1) by (rule recv_len)
  have le: "length bs \<le> n - 1"
    using recv_le [of evs "n - 1"] len by linarith
  have pos: "0 < n" using assms(1) recv_le [of evs "n - 1"] by linarith
  have w: "write_at (memset0 resp n) 0 bs = bs @ replicate (n - length bs) NUL @ drop n resp"
    using le pos assms(2) by (simp add: write_at_def memset0_def)
  have "(bs @ replicate (n - length bs) NUL @ drop n resp) [length bs := NUL]
        = bs @ replicate (n - length bs) NUL @ drop n resp"
    using le pos by (simp add: list_update_append nth_append list_update_same_conv)
  then show ?thesis unfolding bs_def [symmetric] w len [symmetric] .
qed

lemma cstr_padded: "0 < k \<Longrightarrow> cstr (bs @ replicate k NUL @ rest) = cstr bs"
proof (induction bs)
  case Nil
  then show ?case by (cases k) (simp_all add: cstr_def)
next
  case (Cons b bs)
  then show ?case by (simp add: cstr_def)
qed

lemma cstr_zeroed: "0 < n \<Longrightarrow> cstr (memset0 resp n) = []"
  by (cases n) (simp_all add: cstr_def memset0_def)


text \<open>
  Claim C9. A call of \<^verbatim>\<open>socket_send_command\<close> or of \<^verbatim>\<open>socket_get_image_data\<close>
  that has created a socket closes that socket exactly once, and the close is the last
  call it makes; a call that has created no socket closes nothing.
\<close>

theorem socket_closed_exactly_once:
  "filter is_close (cr_trace (socket_send_command s g cmd response resp_size)) =
     (if SocketCreate \<in> set (cr_trace (socket_send_command s g cmd response resp_size)) \<and>
         0 \<le> create_ret s
      then [NetClose (create_ret s)] else []) \<and>
   (SocketCreate \<in> set (cr_trace (socket_send_command s g cmd response resp_size)) \<and>
      0 \<le> create_ret s \<longrightarrow>
      last (cr_trace (socket_send_command s g cmd response resp_size)) = NetClose (create_ret s)) \<and>
   filter is_close (ir_trace (socket_get_image_data s' data data_size)) =
     (if SocketCreate \<in> set (ir_trace (socket_get_image_data s' data data_size)) \<and>
         0 \<le> create_ret s'
      then [NetClose (create_ret s')] else []) \<and>
   (SocketCreate \<in> set (ir_trace (socket_get_image_data s' data data_size)) \<and>
      0 \<le> create_ret s' \<longrightarrow>
      last (ir_trace (socket_get_image_data s' data data_size)) = NetClose (create_ret s'))"
  using send_command_closes [of s g cmd response resp_size]
    send_command_last [of s g cmd response resp_size]
    get_image_closes [of s' data data_size] get_image_last [of s' data data_size]
  by blast

theorem socket_closed_exactly_once_witness:
  "SocketCreate \<in> set (cr_trace (socket_send_command (text_session [RecvError (- 5)])
      demo_globals (Some ''update'') (Some (replicate 1024 NUL)) 1024)) \<and>
   0 \<le> create_ret (text_session [RecvError (- 5)]) \<and>
   filter is_close (cr_trace (socket_send_command (text_session [RecvError (- 5)])
      demo_globals (Some ''update'') (Some (replicate 1024 NUL)) 1024)) = [NetClose 3] \<and>
   last (cr_trace (socket_send_command (text_session [RecvError (- 5)])
      demo_globals (Some ''update'') (Some (replicate 1024 NUL)) 1024)) = NetClose 3 \<and>
   SocketCreate \<in> set (ir_trace (socket_get_image_data
      (demo_session [Chunk [0, 0, 0, 5], Chunk [1, 2], PeerClose]) (Some (replicate 120000 0))
      (Some 0))) \<and>
   0 \<le> create_ret (demo_session [Chunk [0, 0, 0, 5], Chunk [1, 2], PeerClose]) \<and>
   filter is_close (ir_trace (socket_get_image_data
      (demo_session [Chunk [0, 0, 0, 5], Chunk [1, 2], PeerClose]) (Some (replicate 120000 0))
      (Some 0))) = [NetClose 3] \<and>
   last (ir_trace (socket_get_image_data
      (demo_session [Chunk [0, 0, 0, 5], Chunk [1, 2], PeerClose]) (Some (replicate 120000 0))
      (Some 0))) = NetClose 3"
proof -
  have c: "SocketCreate \<in> set (cr_trace (socket_send_command (text_session [RecvError (- 5)])
      demo_globals (Some ''update'') (Some (replicate 1024 NUL)) 1024))"
    by (simp add: socket_send_command_def text_session_def Let_def)
  have i: "SocketCreate \<in> set (ir_trace (socket_get_image_data
      (demo_session [Chunk [0, 0, 0, 5], Chunk [1, 2], PeerClose]) (Some (replicate 120000 0))
      (Some 0)))"
    by (simp add: socket_get_image_data_def demo_session_def Let_def)
  have f: "create_ret (text_session [RecvError (- 5)]) = 3"
    "create_ret (demo_session [Chunk [0, 0, 0, 5], Chunk [1, 2], PeerClose]) = 3"
    by (simp_all add: text_session_def demo_session_def)
  from socket_closed_exactly_once [of "text_session [RecvError (- 5)]" demo_globals
      "Some ''update''" "Some (replicate 1024 NUL)" 1024
      "demo_session [Chunk [0, 0, 0, 5], Chunk [1, 2], PeerClose]" "Some (replicate 120000 0)"
      "Some 0"] c i
  show ?thesis unfolding f by simp
qed

lemma send_command_reply:
  assumes "ready s" and "0 < resp_size" and "nat resp_size \<le> length resp"
    and "0 \<le> fst (tal_net_recv (incoming s) (nat (resp_size - 1)))"
  shows "cr_ret (socket_send_command s g (Some cmd) (Some resp) resp_size) = 0"
    and "cstr (the (cr_response (socket_send_command s g (Some cmd) (Some resp) resp_size))) =
           cstr (fst (snd (tal_net_recv (incoming s) (nat (resp_size - 1)))))"
proof -
  let ?n = "nat resp_size"
  let ?r = "tal_net_recv (incoming s) (nat (resp_size - 1))"
  note unf = send_command_ready [OF assms(1,2), of g cmd resp]
  have n1: "nat (resp_size - 1) = ?n - 1" by simp
  from assms(4) show "cr_ret (socket_send_command s g (Some cmd) (Some resp) resp_size) = 0"
    by (simp add: unf Let_def)
  show "cstr (the (cr_response (socket_send_command s g (Some cmd) (Some resp) resp_size))) =
           cstr (fst (snd ?r))"
  proof (cases "0 < fst ?r")
    case True
    have le: "length (fst (snd ?r)) < ?n"
      using recv_len [OF True] recv_le [of "incoming s" "nat (resp_size - 1)"] assms(2)
      by linarith
    have "the (cr_response (socket_send_command s g (Some cmd) (Some resp) resp_size)) =
        fst (snd ?r) @ replicate (?n - length (fst (snd ?r))) NUL @ drop ?n resp"
      using True reply_buffer [of "incoming s" ?n resp] assms(3)
      by (simp add: unf Let_def n1)
    then show ?thesis using le by (simp add: cstr_padded)
  next
    case False
    then have "fst ?r \<le> 0" by simp
    then have "fst (snd ?r) = []" by (rule recv_nonpos_empty)
    with False assms(2) show ?thesis
      by (simp add: unf Let_def cstr_zeroed) (simp add: cstr_def)
  qed
qed

lemma recv_first_chunk:
  "bs \<noteq> [] \<Longrightarrow> fst (snd (tal_net_recv (Chunk bs # evs) n)) = take n bs \<and>
     0 \<le> fst (tal_net_recv (Chunk bs # evs) n)"
  by simp

text \<open>
  Claim C4, amended. On a connection that is set up, \<^verbatim>\<open>socket_send_command\<close> makes
  exactly one receive, for \<^verbatim>\<open>resp_size - 1\<close> bytes. The call returns \<open>-1\<close> when that
  receive reports a fault (a timeout is one) and 0 otherwise. The reply is what that
  one receive has stored: the first segment to arrive, cut to \<^verbatim>\<open>resp_size - 1\<close> bytes.
  A receive of zero bytes is the peer's close: the call returns 0 and the reply is
  empty.
\<close>

theorem command_reply_is_one_receive:
  assumes "ready s" and "0 < resp_size" and "nat resp_size \<le> length resp"
  shows "cr_trace (socket_send_command s g (Some cmd) (Some resp) resp_size) =
      [SocketCreate, SetTimeout (create_ret s) 5000 TRANS_RECV,
       SetTimeout (create_ret s) 5000 TRANS_SEND, Str2Addr, Connect (create_ret s),
       NetSend (create_ret s) cmd, NetRecv (create_ret s) (nat (resp_size - 1)),
       NetClose (create_ret s)] \<and>
    cr_ret (socket_send_command s g (Some cmd) (Some resp) resp_size) =
      (if fst (tal_net_recv (incoming s) (nat (resp_size - 1))) < 0 then - 1 else 0) \<and>
    (0 \<le> fst (tal_net_recv (incoming s) (nat (resp_size - 1))) \<longrightarrow>
       cstr (the (cr_response (socket_send_command s g (Some cmd) (Some resp) resp_size))) =
         cstr (fst (snd (tal_net_recv (incoming s) (nat (resp_size - 1)))))) \<and>
    (incoming s = Chunk bs # evs \<and> bs \<noteq> [] \<longrightarrow>
       cr_ret (socket_send_command s g (Some cmd) (Some resp) resp_size) = 0 \<and>
       cstr (the (cr_response (socket_send_command s g (Some cmd) (Some resp) resp_size))) =
         cstr (take (nat (resp_size - 1)) bs)) \<and>
    (fst (tal_net_recv (incoming s) (nat (resp_size - 1))) = 0 \<longrightarrow>
       cr_ret (socket_send_command s g (Some cmd) (Some resp) resp_size) = 0 \<and>
       cstr (the (cr_response (socket_send_command s g (Some cmd) (Some resp) resp_size))) = [])"
proof -
  note unf = send_command_ready [OF assms(1,2), of g cmd resp]
  note rep = send_command_reply [OF assms, of g cmd]
  have 1: "cr_trace (socket_send_command s g (Some cmd) (Some resp) resp_size) =
      [SocketCreate, SetTimeout (create_ret s) 5000 TRANS_RECV,
       SetTimeout (create_ret s) 5000 TRANS_SEND, Str2Addr, Connect (create_ret s),
       NetSend (create_ret s) cmd, NetRecv (create_ret s) (nat (resp_size - 1)),
       NetClose (create_ret s)]"
    by (simp add: unf Let_def command_trace_def)
  have 2: "cr_ret (socket_send_command s g (Some cmd) (Some resp) resp_size) =
      (if fst (tal_net_recv (incoming s) (nat (resp_size - 1))) < 0 then - 1 else 0)"
    by (simp add: unf Let_def)
  have 4: "cr_ret (socket_send_command s g (Some cmd) (Some resp) resp_size) = 0 \<and>
       cstr (the (cr_response (socket_send_command s g (Some cmd) (Some resp) resp_size))) =
         cstr (take (nat (resp_size - 1)) bs)"
    if "incoming s = Chunk bs # evs \<and> bs \<noteq> []"
    using rep recv_first_chunk [of bs evs "nat (resp_size - 1)"] that by simp
  have 5: "cr_ret (socket_send_command s g (Some cmd) (Some resp) resp_size) = 0 \<and>
       cstr (the (cr_response (socket_send_command s g (Some cmd) (Some resp) resp_size))) = []"
    if z: "fst (tal_net_recv (incoming s) (nat (resp_size - 1))) = 0"
  proof -
    have "fst (snd (tal_net_recv (incoming s) (nat (resp_size - 1)))) = []"
      using z by (simp add: recv_nonpos_empty)
    with rep z show ?thesis by (simp add: cstr_def)
  qed
  from 1 2 rep(2) 4 5 show ?thesis by blast
qed

theorem command_reply_is_one_receive_witness:
  "ready (text_session [Chunk ''ab'', Chunk ''cd'', PeerClose]) \<and>
   (0 :: int) < 1024 \<and> nat 1024 \<le> length (replicate 1024 NUL) \<and>
   incoming (text_session [Chunk ''ab'', Chunk ''cd'', PeerClose])
     = Chunk ''ab'' # [Chunk ''cd'', PeerClose] \<and>
   cr_trace (socket_send_command (text_session [Chunk ''ab'', Chunk ''cd'', PeerClose])
       demo_globals (Some ''info'') (Some (replicate 1024 NUL)) 1024) =
     [SocketCreate, SetTimeout 3 5000 TRANS_RECV, SetTimeout 3 5000 TRANS_SEND, Str2Addr,
      Connect 3, NetSend 3 ''info'', NetRecv 3 1023, NetClose 3] \<and>
   cr_ret (socket_send_command (text_session [Chunk ''ab'', Chunk ''cd'', PeerClose])
       demo_globals (Some ''info'') (Some (replicate 1024 NUL)) 1024) = 0 \<and>
   cstr (the (cr_response (socket_send_command
       (text_session [Chunk ''ab'', Chunk ''cd'', PeerClose])
       demo_globals (Some ''info'') (Some (replicate 1024 NUL)) 1024))) = ''ab'' \<and>
   fst (tal_net_recv (incoming (text_session [PeerClose])) (nat (1024 - 1))) = 0 \<and>
   cr_ret (socket_send_command (text_session [PeerClose])
       demo_globals (Some ''info'') (Some (replicate 1024 NUL)) 1024) = 0 \<and>
   cstr (the (cr_response (socket_send_command (text_session [PeerClose])
       demo_globals (Some ''info'') (Some (replicate 1024 NUL)) 1024))) = []"
proof -
  have r: "ready (text_session evs)" for evs
    by (simp add: ready_def text_session_def)
  have n: "(0 :: int) < 1024" "nat 1024 \<le> length (replicate 1024 NUL)"
    by simp_all
  have i: "incoming (text_session [Chunk ''ab'', Chunk ''cd'', PeerClose])
     = Chunk ''ab'' # [Chunk ''cd'', PeerClose]"
    by (simp add: text_session_def)
  have z: "fst (tal_net_recv (incoming (text_session [PeerClose])) (nat (1024 - 1))) = 0"
    by (simp add: text_session_def)
  have f: "create_ret (text_session evs) = 3" for evs
    by (simp add: text_session_def)
  have c: "cstr ''ab'' = ''ab''"
    by (simp add: cstr_def NUL_def)
  from command_reply_is_one_receive [OF r n, of "[Chunk ''ab'', Chunk ''cd'', PeerClose]"
      demo_globals "''info''" "''ab''" "[Chunk ''cd'', PeerClose]"] i
  have a: "cr_trace (socket_send_command (text_session [Chunk ''ab'', Chunk ''cd'', PeerClose])
       demo_globals (Some ''info'') (Some (replicate 1024 NUL)) 1024) =
     [SocketCreate, SetTimeout 3 5000 TRANS_RECV, SetTimeout 3 5000 TRANS_SEND, Str2Addr,
      Connect 3, NetSend 3 ''info'', NetRecv 3 1023, NetClose 3] \<and>
   cr_ret (socket_send_command (text_session [Chunk ''ab'', Chunk ''cd'', PeerClose])
       demo_globals (Some ''info'') (Some (replicate 1024 NUL)) 1024) = 0 \<and>
   cstr (the (cr_response (socket_send_command
       (text_session [Chunk ''ab'', Chunk ''cd'', PeerClose])
       demo_globals (Some ''info'') (Some (replicate 1024 NUL)) 1024))) = ''ab''"
    unfolding f by (simp add: c)
  from command_reply_is_one_receive [OF r n, of "[PeerClose]" demo_globals "''info''"] z
  have b: "cr_ret (socket_send_command (text_session [PeerClose])
       demo_globals (Some ''info'') (Some (replicate 1024 NUL)) 1024) = 0 \<and>
   cstr (the (cr_response (socket_send_command (text_session [PeerClose])
       demo_globals (Some ''info'') (Some (replicate 1024 NUL)) 1024))) = []"
    by blast
  from r n i z a b show ?thesis by blast
qed

text \<open>
  The claim as it is stated fails: the peer sends \<open>ab\<close>, then \<open>cd\<close>, then closes.
  Reading until the buffer of 1024 bytes is full, the peer closes or the timeout fires
  gives \<open>abcd\<close>; the code returns after the first segment with the reply \<open>ab\<close>.
\<close>

theorem command_reply_counterexample:
  "spec_reply [Chunk ''ab'', Chunk ''cd'', PeerClose] 1023 = ''abcd'' \<and>
   cr_ret (socket_send_command (text_session [Chunk ''ab'', Chunk ''cd'', PeerClose])
       demo_globals (Some ''info'') (Some (replicate 1024 NUL)) 1024) = 0 \<and>
   cstr (the (cr_response (socket_send_command
       (text_session [Chunk ''ab'', Chunk ''cd'', PeerClose])
       demo_globals (Some ''info'') (Some (replicate 1024 NUL)) 1024))) = ''ab'' \<and>
   filter (\<lambda>a. recv_request a \<noteq> None) (cr_trace (socket_send_command
       (text_session [Chunk ''ab'', Chunk ''cd'', PeerClose])
       demo_globals (Some ''info'') (Some (replicate 1024 NUL)) 1024)) = [NetRecv 3 1023]"
proof -
  have r: "ready (text_session [Chunk ''ab'', Chunk ''cd'', PeerClose])"
    by (simp add: ready_def text_session_def)
  have n: "(0 :: int) < 1024" "nat 1024 \<le> length (replicate 1024 NUL)"
    by simp_all
  have p: "0 \<le> fst (tal_net_recv (incoming (text_session [Chunk ''ab'', Chunk ''cd'', PeerClose]))
      (nat (1024 - 1)))"
    by (simp add: text_session_def)
  have c: "cstr (fst (snd (tal_net_recv
      (incoming (text_session [Chunk ''ab'', Chunk ''cd'', PeerClose])) (nat (1024 - 1))))) = ''ab''"
    by (simp add: text_session_def cstr_def NUL_def)
  have t: "filter (\<lambda>a. recv_request a \<noteq> None) (cr_trace (socket_send_command
       (text_session [Chunk ''ab'', Chunk ''cd'', PeerClose])
       demo_globals (Some ''info'') (Some (replicate 1024 NUL)) 1024)) = [NetRecv 3 1023]"
    by (simp add: send_command_ready [OF r n(1)] Let_def command_trace_def)
      (simp add: text_session_def)
  have s: "spec_reply [Chunk ''ab'', Chunk ''cd'', PeerClose] 1023 = ''abcd''"
    by (simp add: spec_reply_def)
  from send_command_reply [OF r n p, of demo_globals "''info''"] c t s
  show ?thesis by simp
qed

subsection \<open>Scanning the replies\<close>

lemma strstr_None_iff: "strstr hay needle = None \<longleftrightarrow> \<not> sublist needle hay"
proof (induction hay)
  case Nil
  then show ?case by simp
next
  case (Cons c cs)
  then show ?case by (auto simp add: sublist_Cons_right)
qed

lemma strstr_Some:
  "strstr hay needle = Some k \<Longrightarrow>
   k \<le> length hay \<and> prefix needle (drop k hay) \<and> (\<forall>i<k. \<not> prefix needle (drop i hay))"
proof (induction hay arbitrary: k)
  case Nil
  then show ?case by (simp split: if_splits)
next
  case (Cons c cs)
  show ?case
  proof (cases "prefix needle (c # cs)")
    case True
    with Cons.prems show ?thesis by simp
  next
    case False
    with Cons.prems obtain j where j: "strstr cs needle = Some j" "k = Suc j"
      by auto
    from Cons.IH [OF j(1)] False j(2) show ?thesis
      by (auto simp add: less_Suc_eq_0_disj)
  qed
qed

lemma strstr_first:
  "prefix needle (drop k hay) \<Longrightarrow> k \<le> length hay \<Longrightarrow>
   \<forall>i<k. \<not> prefix needle (drop i hay) \<Longrightarrow> strstr hay needle = Some k"
proof (induction hay arbitrary: k)
  case Nil
  then show ?case by simp
next
  case (Cons c cs)
  show ?case
  proof (cases k)
    case 0
    with Cons.prems show ?thesis by simp
  next
    case (Suc j)
    from Cons.prems(3) Suc have np: "\<not> prefix needle (c # cs)" by force
    have "\<forall>i<j. \<not> prefix needle (drop i cs)"
      using Cons.prems(3) Suc by force
    with Cons.IH [of j] Cons.prems(1,2) Suc have "strstr cs needle = Some j" by simp
    with np Suc show ?thesis by simp
  qed
qed

lemma strchr0_Some:
  "strchr0 hay c = Some k \<Longrightarrow> k < length hay \<and> hay ! k = c \<and> c \<notin> set (take k hay)"
proof (induction hay arbitrary: k)
  case Nil
  then show ?case by simp
next
  case (Cons x xs)
  then show ?case by (auto split: if_splits)
qed

lemma strchr0_first: "c \<notin> set pre \<Longrightarrow> strchr0 (pre @ c # post) c = Some (length pre)"
  by (induction pre) auto

text \<open>The filename block always finds the marker's own quotes.\<close>

lemma parse_filename_marker:
  assumes "strstr response (quoted ''filename'') = Some p"
  shows "parse_filename response = ''filename''"
proof -
  from strstr_Some [OF assms] have pre: "prefix (quoted ''filename'') (drop p response)"
    by simp
  then obtain rest where d: "drop p response = quoted ''filename'' @ rest"
    by (auto simp: prefix_def)
  have s1: "strchr response p dquote = Some p"
    by (simp add: strchr_def d quoted_def)
  have "drop (Suc p) response = tl (drop p response)"
    by (simp add: drop_Suc tl_drop)
  then have d1: "drop (Suc p) response = ''filename'' @ dquote # rest"
    by (simp add: d quoted_def)
  have nq: "dquote \<notin> set ''filename''"
    by (simp add: dquote_def)
  have s2: "strchr response (Suc p) dquote = Some (p + 9)"
    using strchr0_first [OF nq, of rest] by (simp add: strchr_def d1 del: strchr0.simps)
  show ?thesis
    by (simp add: parse_filename_def copy_filename_def assms s1 s2 d1)
qed

lemma parse_filename_absent:
  "strstr response (quoted ''filename'') = None \<Longrightarrow> parse_filename response = []"
  by (simp add: parse_filename_def)

lemma copy_filename_length: "length (copy_filename response start end') < 255"
  by (simp add: copy_filename_def Let_def) linarith

lemma parse_filename_length: "length (parse_filename response) < 255"
  by (simp add: parse_filename_def copy_filename_length split: option.split)

lemma long_name_reply_marker: "strstr long_name_reply (quoted ''filename'') = Some 0"
  by (simp add: long_name_reply_def quoted_def)

lemma sunset_reply_marker: "strstr sunset_reply (quoted ''filename'') = Some 28"
  by (simp add: sunset_reply_def quoted_def dquote_def)

text \<open>
  Claim C2 says that the block after \<^verbatim>\<open>info\<close> extracts the file name, the text
  between the quotes that follow the marker, cut to the maximum length when it is too
  long, and never overflows the buffer. The buffer is never overflowed (lemma
  \<open>parse_filename_length\<close>), but the name is not extracted: \<^verbatim>\<open>strchr(p, '"')\<close>
  finds the opening quote of the marker itself, so that the bytes copied are the word
  \<open>filename\<close> whenever the marker occurs (lemma \<open>parse_filename_marker\<close>). On the
  reply of the specification's own scenario the name is \<open>sunset.bin\<close> and the block
  stores and logs \<open>filename\<close>; on a reply whose name has 300 bytes the name cut to the
  maximum is 255 times \<open>a\<close> and the block stores \<open>filename\<close> again.
\<close>

theorem filename_is_marker_word:
  "strstr sunset_reply (quoted ''filename'') = Some 28 \<and>
   spec_filename sunset_reply = ''sunset.bin'' \<and>
   parse_filename sunset_reply = ''filename'' \<and>
   fst (parse_info sunset_reply stale_globals) = (3, 10, ''filename'') \<and>
   strstr long_name_reply (quoted ''filename'') = Some 0 \<and>
   spec_filename long_name_reply = replicate 255 (CHR ''a'') \<and>
   parse_filename long_name_reply = ''filename''"
proof -
  have 1: "spec_filename sunset_reply = ''sunset.bin''"
    by (simp add: spec_filename_def sunset_reply_marker)
      (simp add: sunset_reply_def quoted_def dquote_def)
  have 2: "parse_filename sunset_reply = ''filename''"
    using sunset_reply_marker by (rule parse_filename_marker)
  have 3: "scan_int_field sunset_reply ''index'' 0 = 3"
    by (simp add: scan_int_field_def sscanf_field_def scan_d_def to_int32_def skip_space_def
        isspace_def isdigit_def digit_val_def sunset_reply_def quoted_def dquote_def Let_def)
  have 4: "scan_int_field sunset_reply ''total'' 0 = 10"
    by (simp add: scan_int_field_def sscanf_field_def scan_d_def to_int32_def skip_space_def
        isspace_def isdigit_def digit_val_def sunset_reply_def quoted_def dquote_def Let_def)
  have 5: "fst (parse_info sunset_reply stale_globals) = (3, 10, ''filename'')"
    by (simp add: parse_info_def Let_def 2 3 4)
  have 6: "spec_filename long_name_reply = replicate 255 (CHR ''a'')"
    by (simp add: spec_filename_def long_name_reply_marker)
      (simp add: long_name_reply_def quoted_def dquote_def takeWhile_append)
  have 7: "parse_filename long_name_reply = ''filename''"
    using long_name_reply_marker by (rule parse_filename_marker)
  from sunset_reply_marker 1 2 5 long_name_reply_marker 6 7 show ?thesis by simp
qed

text \<open>The store into \<^verbatim>\<open>int\<close> keeps a number that fits, and wraps one that does not.\<close>

lemma to_int32_fits: "- 2147483648 \<le> v \<Longrightarrow> v < 2147483648 \<Longrightarrow> to_int32 v = v"
  by (simp add: to_int32_def signed_of_int signed_take_bit_int_eq_self)

lemma to_int32_wraps: "to_int32 2147483648 = - 2147483648"
  by (simp add: to_int32_def)

lemma scan_d_42:
  assumes "post = [] \<or> \<not> isdigit (hd post)"
  shows "scan_d ('' 42'' @ post) = Some 42"
proof -
  have d: "isdigit (CHR ''4'')" "isdigit (CHR ''2'')"
    by (simp_all add: isdigit_def)
  have "takeWhile isdigit post = []"
    using assms by (cases post) simp_all
  then have "takeWhile isdigit (''42'' @ post) = ''42''"
    by (simp add: d)
  then show ?thesis
    by (simp add: scan_d_def to_int32_def skip_space_def isspace_def digit_val_def Let_def)
qed

lemma sscanf_field_42:
  "post = [] \<or> \<not> isdigit (hd post) \<Longrightarrow>
   sscanf_field (quoted name @ '' : 42'' @ post) name = Some 42"
  using scan_d_42 [of post]
  by (simp add: sscanf_field_def skip_space_def isspace_def Let_def)

lemma scan_int_field_absent:
  "\<not> sublist (quoted name) response \<Longrightarrow> scan_int_field response name v = v"
  by (simp add: scan_int_field_def strstr_None_iff [symmetric])

lemma scan_int_field_42:
  assumes "\<forall>i<length pre. \<not> prefix (quoted name) (drop i (pre @ quoted name @ '' : 42'' @ post))"
    and "post = [] \<or> \<not> isdigit (hd post)"
  shows "strstr (pre @ quoted name @ '' : 42'' @ post) (quoted name) = Some (length pre)"
    and "scan_int_field (pre @ quoted name @ '' : 42'' @ post) name v = 42"
proof -
  show s: "strstr (pre @ quoted name @ '' : 42'' @ post) (quoted name) = Some (length pre)"
    using assms(1) by (intro strstr_first) simp_all
  show "scan_int_field (pre @ quoted name @ '' : 42'' @ post) name v = 42"
    using sscanf_field_42 [OF assms(2), of name] s by (simp add: scan_int_field_def)
qed

text \<open>
  Claim C7. When the quoted field name does not occur in the reply, \<^verbatim>\<open>strstr\<close>
  returns \<^verbatim>\<open>NULL\<close> and the variable keeps its value: the blocks after \<^verbatim>\<open>update\<close>
  and after \<^verbatim>\<open>info\<close> leave \<^verbatim>\<open>g_image_index\<close> and \<^verbatim>\<open>g_image_total\<close> as they
  were. When the reply holds \<open>"total" : 42\<close> between any other bytes, with no
  earlier occurrence of the marker and no digit right after the number, the field is
  42, wherever the other fields stand.
\<close>

theorem field_lookup:
  "(\<not> sublist (quoted name) response \<longrightarrow>
      strstr response (quoted name) = None \<and> scan_int_field response name v = v) \<and>
   (\<not> sublist (quoted ''current_index'') response \<longrightarrow>
      g_image_index (parse_update response g) = g_image_index g) \<and>
   (\<not> sublist (quoted ''total'') response \<longrightarrow>
      g_image_total (parse_update response g) = g_image_total g \<and>
      g_image_total (snd (parse_info response g)) = g_image_total g) \<and>
   ((\<forall>i<length pre. \<not> prefix (quoted ''total'')
         (drop i (pre @ quoted ''total'' @ '' : 42'' @ post))) \<and>
    (post = [] \<or> \<not> isdigit (hd post)) \<longrightarrow>
      scan_int_field (pre @ quoted ''total'' @ '' : 42'' @ post) ''total'' v = 42 \<and>
      g_image_total (parse_update (pre @ quoted ''total'' @ '' : 42'' @ post) g) = 42 \<and>
      g_image_total (snd (parse_info (pre @ quoted ''total'' @ '' : 42'' @ post) g)) = 42)"
proof (intro conjI impI)
  assume a: "\<not> sublist (quoted name) response"
  then show "strstr response (quoted name) = None" by (simp add: strstr_None_iff)
  from a show "scan_int_field response name v = v" by (rule scan_int_field_absent)
next
  assume "\<not> sublist (quoted ''current_index'') response"
  then show "g_image_index (parse_update response g) = g_image_index g"
    by (simp add: parse_update_def scan_int_field_absent)
next
  assume a: "\<not> sublist (quoted ''total'') response"
  then show "g_image_total (parse_update response g) = g_image_total g"
    by (simp add: parse_update_def scan_int_field_absent)
  from a show "g_image_total (snd (parse_info response g)) = g_image_total g"
    by (simp add: parse_info_def Let_def strstr_None_iff)
next
  assume a: "(\<forall>i<length pre. \<not> prefix (quoted ''total'')
         (drop i (pre @ quoted ''total'' @ '' : 42'' @ post))) \<and>
    (post = [] \<or> \<not> isdigit (hd post))"
  note x = scan_int_field_42 [of pre "''total''" post, OF conjunct1 [OF a] conjunct2 [OF a]]
  show "scan_int_field (pre @ quoted ''total'' @ '' : 42'' @ post) ''total'' v = 42"
    by (rule x(2))
  show "g_image_total (parse_update (pre @ quoted ''total'' @ '' : 42'' @ post) g) = 42"
    using x(2) by (simp add: parse_update_def)
  show "g_image_total (snd (parse_info (pre @ quoted ''total'' @ '' : 42'' @ post) g)) = 42"
    using x by (simp add: parse_info_def Let_def)
qed

theorem field_lookup_witness:
  "strstr ''{}'' (quoted ''total'') = None \<and>
   scan_int_field ''{}'' ''total'' 8 = 8 \<and>
   parse_update ''{}'' stale_globals = stale_globals \<and>
   g_image_total (snd (parse_info ''{}'' stale_globals)) = 8 \<and>
   strstr (update_reply_pre @ quoted ''total'' @ '' : 42'' @ ''}'') (quoted ''total'') = Some 22 \<and>
   g_image_total (parse_update (update_reply_pre @ quoted ''total'' @ '' : 42'' @ ''}'')
     stale_globals) = 42 \<and>
   g_image_index (parse_update (update_reply_pre @ quoted ''total'' @ '' : 42'' @ ''}'')
     stale_globals) = 3 \<and>
   strstr (''{'' @ quoted ''total'' @ '' : 42'' @ update_reply_post) (quoted ''total'') = Some 1 \<and>
   g_image_total (parse_update (''{'' @ quoted ''total'' @ '' : 42'' @ update_reply_post)
     stale_globals) = 42 \<and>
   g_image_index (parse_update (''{'' @ quoted ''total'' @ '' : 42'' @ update_reply_post)
     stale_globals) = 3"
proof -
  have n: "strstr ''{}'' (quoted name) = None" for name
    by (simp add: quoted_def dquote_def)
  have a: "\<not> sublist (quoted name) ''{}''" for name
    unfolding strstr_None_iff [symmetric] by (rule n)
  have s1: "strstr (update_reply_pre @ quoted ''total'' @ '' : 42'' @ ''}'') (quoted ''total'')
      = Some 22"
    by (simp add: update_reply_pre_def quoted_def dquote_def)
  have l1: "length update_reply_pre = 22"
    by (simp add: update_reply_pre_def quoted_def)
  have s2: "strstr (''{'' @ quoted ''total'' @ '' : 42'' @ update_reply_post) (quoted ''total'')
      = Some 1"
    by (simp add: update_reply_post_def quoted_def dquote_def)
  have p1: "post = [] \<or> \<not> isdigit (hd post)" if "post = ''}''" for post
    using that by (simp add: isdigit_def)
  have p2: "update_reply_post = [] \<or> \<not> isdigit (hd update_reply_post)"
    by (simp add: update_reply_post_def isdigit_def)
  have i1: "g_image_index (parse_update (update_reply_pre @ quoted ''total'' @ '' : 42'' @ ''}'')
     stale_globals) = 3"
    by (simp add: parse_update_def scan_int_field_def sscanf_field_def scan_d_def to_int32_def
        skip_space_def
        isspace_def isdigit_def digit_val_def update_reply_pre_def quoted_def dquote_def
        stale_globals_def Let_def)
  have i2: "g_image_index (parse_update (''{'' @ quoted ''total'' @ '' : 42'' @ update_reply_post)
     stale_globals) = 3"
    by (simp add: parse_update_def scan_int_field_def sscanf_field_def scan_d_def to_int32_def
        skip_space_def
        isspace_def isdigit_def digit_val_def update_reply_post_def quoted_def dquote_def
        stale_globals_def Let_def)
  have g: "g_image_total stale_globals = 8" "g_image_index stale_globals = 7"
    by (simp_all add: stale_globals_def)
  from field_lookup [where response = "''{}''" and name = "''total''" and v = 8
      and g = stale_globals and pre = update_reply_pre and post = "''}''"]
    a strstr_Some [OF s1] l1 p1
  have w1: "scan_int_field ''{}'' ''total'' 8 = 8 \<and>
    g_image_index (parse_update ''{}'' stale_globals) = 7 \<and>
    g_image_total (parse_update ''{}'' stale_globals) = 8 \<and>
    g_image_total (snd (parse_info ''{}'' stale_globals)) = 8 \<and>
    g_image_total (parse_update (update_reply_pre @ quoted ''total'' @ '' : 42'' @ ''}'')
      stale_globals) = 42"
    by (simp add: g)
  from field_lookup [where response = "''{}''" and name = "''total''" and v = 8
      and g = stale_globals and pre = "''{''" and post = update_reply_post]
    strstr_Some [OF s2] p2
  have w2: "g_image_total (parse_update (''{'' @ quoted ''total'' @ '' : 42'' @ update_reply_post)
     stale_globals) = 42"
    by simp
  have e: "parse_update ''{}'' stale_globals = stale_globals"
    using w1 by (simp add: parse_update_def stale_globals_def)
  from n w1 w2 e s1 s2 i1 i2 show ?thesis by simp
qed

subsection \<open>What the two socket functions leave in the trace\<close>

lemma commands_sent_append [simp]:
  "commands_sent (tr @ tr') = commands_sent tr @ commands_sent tr'"
  by (induction tr rule: commands_sent.induct) simp_all

lemma socket_action_other:
  "socket_action a \<Longrightarrow>
   \<not> is_sleep a \<and> \<not> panel_action a \<and> a \<noteq> Malloc n \<and> a \<noteq> Free \<and> a \<noteq> ReadLinkFlag"
  by (cases a) simp_all

lemma loop_trace_socket:
  "list_all socket_action (snd (snd (snd (recv_image_loop fd image_size received data evs))))"
  using loop_trace_requests [of fd image_size received data evs]
  by (auto simp add: list_all_iff)

lemma loop_trace_sent:
  "commands_sent (snd (snd (snd (recv_image_loop fd image_size received data evs)))) = []"
proof (induction received data evs rule: loop_induct [where image_size = image_size])
  case (finished received data evs)
  then show ?case by (simp add: loop_done)
next
  case (short received data evs)
  then show ?case by (simp add: loop_fail)
next
  case (more received data evs r)
  then show ?case by (simp add: loop_step Let_def)
qed

lemma send_command_socket:
  "list_all socket_action (cr_trace (socket_send_command s g cmd response resp_size))"
  by (simp add: socket_send_command_def Let_def)

lemma send_command_sent:
  "set (commands_sent (cr_trace (socket_send_command s g (Some c) response resp_size))) \<subseteq> {c}"
  by (simp add: socket_send_command_def Let_def)

lemma get_image_socket:
  "list_all socket_action (ir_trace (socket_get_image_data s data data_size))"
  by (simp add: socket_get_image_data_def Let_def loop_trace_socket)

lemma get_image_sent:
  "set (commands_sent (ir_trace (socket_get_image_data s data data_size))) \<subseteq> {''get_c''}"
  by (simp add: socket_get_image_data_def Let_def loop_trace_sent)

lemma socket_only:
  assumes "list_all socket_action tr"
  shows "filter is_sleep tr = []" and "filter panel_action tr = []"
    and "Malloc n \<notin> set tr" and "Free \<notin> set tr" and "ReadLinkFlag \<notin> set tr"
  using assms by (induction tr) (auto dest: socket_action_other)

lemma send_command_ret_indep:
  "cr_ret (socket_send_command s g (Some c) (Some r) n) =
   cr_ret (socket_send_command s g' (Some c') (Some r') n)"
  by (simp add: socket_send_command_def Let_def)

lemma send_command_trace_indep:
  "cr_trace (socket_send_command s g (Some c) (Some r) n) =
   cr_trace (socket_send_command s g' (Some c) (Some r') n)"
  by (simp add: socket_send_command_def Let_def)

lemma loop_indep:
  "fst (recv_image_loop fd image_size received data evs) =
     fst (recv_image_loop fd image_size received data' evs) \<and>
   snd (snd (snd (recv_image_loop fd image_size received data evs))) =
     snd (snd (snd (recv_image_loop fd image_size received data' evs)))"
proof (induction received data evs arbitrary: data' rule: loop_induct [where image_size = image_size])
  case (finished received data evs)
  then show ?case by (simp add: loop_done)
next
  case (short received data evs)
  then show ?case by (simp add: loop_fail)
next
  case (more received data evs r)
  from more.IH [of "write_at data' received (fst (snd r))"] more.hyps
  show ?case by (simp add: loop_step Let_def)
qed

lemma get_image_indep:
  "ir_ret (socket_get_image_data s (Some buf) (Some sz)) =
     ir_ret (socket_get_image_data s (Some buf') (Some sz'))"
  "ir_trace (socket_get_image_data s (Some buf) (Some sz)) =
     ir_trace (socket_get_image_data s (Some buf') (Some sz'))"
  using loop_indep [of "create_ret s" _ 0 buf _ buf']
  by (simp_all add: socket_get_image_data_def Let_def)

subsection \<open>The cycle and the main loop\<close>

lemma command_ret_eq:
  "cr_ret (socket_send_command s g (Some c) (Some r) RECV_BUFFER_SIZE) = command_ret s"
  unfolding command_ret_def by (rule send_command_ret_indep)

lemma command_calls_eq:
  "cr_trace (socket_send_command s g (Some c) (Some r) RECV_BUFFER_SIZE) = command_calls s c"
  unfolding command_calls_def by (rule send_command_trace_indep)

lemma download_eq:
  "ir_ret (socket_get_image_data s (Some buf) (Some sz)) = download_ret s"
  "ir_trace (socket_get_image_data s (Some buf) (Some sz)) = download_calls s"
  unfolding download_ret_def download_calls_def by (rule get_image_indep)+

lemma command_calls_props:
  "filter is_sleep (command_calls s c) = []"
  "filter panel_action (command_calls s c) = []"
  "Malloc n \<notin> set (command_calls s c)"
  "Free \<notin> set (command_calls s c)"
  "ReadLinkFlag \<notin> set (command_calls s c)"
  "set (commands_sent (command_calls s c)) \<subseteq> {c}"
  unfolding command_calls_def
  by (rule socket_only [OF send_command_socket] send_command_sent)+

lemma download_calls_props:
  "filter is_sleep (download_calls s) = []"
  "filter panel_action (download_calls s) = []"
  "Malloc n \<notin> set (download_calls s)"
  "Free \<notin> set (download_calls s)"
  "ReadLinkFlag \<notin> set (download_calls s)"
  "set (commands_sent (download_calls s)) \<subseteq> {''get_c''}"
  unfolding download_calls_def
  by (rule socket_only [OF get_image_socket] get_image_sent)+

lemma cycle_shape:
  "\<exists>i t f b. snd (cycle e st) = cycle_calls e i t f b"
proof (cases "ce_malloc e")
  case None
  show ?thesis
    by (auto simp add: cycle_def cycle_calls_def Let_def command_ret_eq command_calls_eq None)
next
  case (Some buf)
  show ?thesis
    by (auto simp add: cycle_def cycle_calls_def Let_def command_ret_eq command_calls_eq download_eq Some)
qed

lemma main_loop_sleeps:
  "filter is_sleep (snd (main_loop es st)) = replicate (length es) (SysSleep LOOP_INTERVAL_MS)"
proof (induction es arbitrary: st)
  case Nil
  then show ?case by simp
next
  case (Cons e es)
  obtain i t f b where "snd (cycle e st) = cycle_calls e i t f b"
    using cycle_shape [of e st] by blast
  then have "filter is_sleep (snd (cycle e st)) = [SysSleep LOOP_INTERVAL_MS]"
    by (simp add: cycle_calls_def command_calls_props download_calls_props)
  with Cons.IH show ?case by (simp add: Let_def)
qed

lemma EPD_test_net_in_loop:
  "startup_ok su \<Longrightarrow> fst (EPD_test_net su es response0) = InMainLoop"
  by (simp add: startup_ok_def EPD_test_net_def initial_state_def Let_def)

lemma EPD_test_net_returns:
  "\<not> startup_ok su \<Longrightarrow> fst (EPD_test_net su es response0) = Returned (- 1)"
  by (simp add: startup_ok_def EPD_test_net_def initial_state_def Let_def)

lemma not_sent:
  "c' \<noteq> c \<Longrightarrow> c' \<notin> set (commands_sent (command_calls s c))"
  "c' \<noteq> ''get_c'' \<Longrightarrow> c' \<notin> set (commands_sent (download_calls s'))"
  using command_calls_props(6) [of s c] download_calls_props(6) [of s'] by blast+

lemma command_calls_start: "\<exists>tr. command_calls s c = SocketCreate # tr"
  by (simp add: command_calls_def socket_send_command_def RECV_BUFFER_SIZE_def Let_def)

text \<open>
  Claim C8. Every cycle, failed or not, calls \<^verbatim>\<open>tal_system_sleep\<close> exactly once,
  with \<^verbatim>\<open>LOOP_INTERVAL_MS\<close>, as its last call. When \<^verbatim>\<open>update\<close> fails the cycle
  is the calls of that command and the sleep: no \<^verbatim>\<open>info\<close>, no \<^verbatim>\<open>get_c\<close>, no
  buffer, no panel. When \<^verbatim>\<open>info\<close> fails there is no \<^verbatim>\<open>get_c\<close>, no buffer and no
  panel call; when \<^verbatim>\<open>malloc\<close> fails there is no \<^verbatim>\<open>get_c\<close> and no panel call; when
  the download fails the buffer is freed and the panel is not touched; when
  \<^verbatim>\<open>DEV_Module_Init\<close> fails the buffer is freed and nothing else is done with the
  panel. The main loop sleeps once per cycle, and once the start has reached the loop
  \<^verbatim>\<open>EPD_test_net\<close> does not return, however many cycles fail.
\<close>

theorem failed_cycle_reaches_delay:
  "filter is_sleep (snd (cycle e st)) = [SysSleep LOOP_INTERVAL_MS] \<and>
   last (snd (cycle e st)) = SysSleep LOOP_INTERVAL_MS \<and>
   (command_ret (ce_update e) \<noteq> 0 \<longrightarrow>
      snd (cycle e st) = command_calls (ce_update e) ''update'' @ [SysSleep LOOP_INTERVAL_MS] \<and>
      ''info'' \<notin> set (commands_sent (snd (cycle e st))) \<and>
      ''get_c'' \<notin> set (commands_sent (snd (cycle e st))) \<and>
      Malloc IMAGE_BUFFER_SIZE \<notin> set (snd (cycle e st)) \<and>
      filter panel_action (snd (cycle e st)) = []) \<and>
   (command_ret (ce_update e) = 0 \<and> command_ret (ce_info e) \<noteq> 0 \<longrightarrow>
      snd (cycle e st) = command_calls (ce_update e) ''update''
        @ command_calls (ce_info e) ''info'' @ [SysSleep LOOP_INTERVAL_MS] \<and>
      ''get_c'' \<notin> set (commands_sent (snd (cycle e st))) \<and>
      Malloc IMAGE_BUFFER_SIZE \<notin> set (snd (cycle e st)) \<and>
      filter panel_action (snd (cycle e st)) = []) \<and>
   (command_ret (ce_update e) = 0 \<and> command_ret (ce_info e) = 0 \<and> ce_malloc e = None \<longrightarrow>
      ''get_c'' \<notin> set (commands_sent (snd (cycle e st))) \<and>
      Free \<notin> set (snd (cycle e st)) \<and>
      filter panel_action (snd (cycle e st)) = []) \<and>
   (command_ret (ce_update e) = 0 \<and> command_ret (ce_info e) = 0 \<and> ce_malloc e \<noteq> None \<and>
    download_ret (ce_get_c e) \<noteq> 0 \<longrightarrow>
      filter panel_action (snd (cycle e st)) = [] \<and>
      Free \<in> set (snd (cycle e st))) \<and>
   (command_ret (ce_update e) = 0 \<and> command_ret (ce_info e) = 0 \<and> ce_malloc e \<noteq> None \<and>
    download_ret (ce_get_c e) = 0 \<and> ce_dev_init e \<noteq> 0 \<longrightarrow>
      filter panel_action (snd (cycle e st)) = [DevModuleInit] \<and>
      Free \<in> set (snd (cycle e st))) \<and>
   filter is_sleep (snd (main_loop es st)) = replicate (length es) (SysSleep LOOP_INTERVAL_MS) \<and>
   (startup_ok su \<longrightarrow> fst (EPD_test_net su es response0) = InMainLoop)"
proof -
  obtain i t f b where shape: "snd (cycle e st) = cycle_calls e i t f b"
    using cycle_shape [of e st] by blast
  note props = cycle_calls_def command_calls_props download_calls_props not_sent
  have 1: "filter is_sleep (snd (cycle e st)) = [SysSleep LOOP_INTERVAL_MS]"
    unfolding shape by (simp add: props)
  have 2: "last (snd (cycle e st)) = SysSleep LOOP_INTERVAL_MS"
    unfolding shape by (simp add: cycle_calls_def)
  have 3: "snd (cycle e st) = command_calls (ce_update e) ''update'' @ [SysSleep LOOP_INTERVAL_MS] \<and>
      ''info'' \<notin> set (commands_sent (snd (cycle e st))) \<and>
      ''get_c'' \<notin> set (commands_sent (snd (cycle e st))) \<and>
      Malloc IMAGE_BUFFER_SIZE \<notin> set (snd (cycle e st)) \<and>
      filter panel_action (snd (cycle e st)) = []"
    if "command_ret (ce_update e) \<noteq> 0"
    unfolding shape using that by (simp add: props)
  have 4: "snd (cycle e st) = command_calls (ce_update e) ''update''
        @ command_calls (ce_info e) ''info'' @ [SysSleep LOOP_INTERVAL_MS] \<and>
      ''get_c'' \<notin> set (commands_sent (snd (cycle e st))) \<and>
      Malloc IMAGE_BUFFER_SIZE \<notin> set (snd (cycle e st)) \<and>
      filter panel_action (snd (cycle e st)) = []"
    if "command_ret (ce_update e) = 0 \<and> command_ret (ce_info e) \<noteq> 0"
    unfolding shape using that by (simp add: props)
  have 5: "''get_c'' \<notin> set (commands_sent (snd (cycle e st))) \<and>
      Free \<notin> set (snd (cycle e st)) \<and>
      filter panel_action (snd (cycle e st)) = []"
    if "command_ret (ce_update e) = 0 \<and> command_ret (ce_info e) = 0 \<and> ce_malloc e = None"
    unfolding shape using that by (simp add: props)
  have 6: "filter panel_action (snd (cycle e st)) = [] \<and> Free \<in> set (snd (cycle e st))"
    if "command_ret (ce_update e) = 0 \<and> command_ret (ce_info e) = 0 \<and> ce_malloc e \<noteq> None \<and>
        download_ret (ce_get_c e) \<noteq> 0"
    unfolding shape using that by (simp add: props)
  have 7: "filter panel_action (snd (cycle e st)) = [DevModuleInit] \<and>
      Free \<in> set (snd (cycle e st))"
    if "command_ret (ce_update e) = 0 \<and> command_ret (ce_info e) = 0 \<and> ce_malloc e \<noteq> None \<and>
        download_ret (ce_get_c e) = 0 \<and> ce_dev_init e \<noteq> 0"
    unfolding shape using that by (simp add: props)
  note 8 = main_loop_sleeps [of es st]
  have 9: "fst (EPD_test_net su es response0) = InMainLoop" if "startup_ok su"
    using that by (rule EPD_test_net_in_loop)
  from 1 2 3 4 5 6 7 8 9 show ?thesis by blast
qed


lemma demo_rets:
  "command_ret bad_text = - 1" "command_ret good_text = 0"
  "download_ret bad_frame = - 1" "download_ret good_frame = 0"
     apply (simp_all add: command_ret_def bad_text_def good_text_def text_session_def
      socket_send_command_def RECV_BUFFER_SIZE_def Let_def)
   apply (simp_all add: download_ret_def bad_frame_def good_frame_def eval_image)
  done

lemma demo_startup_ok: "startup_ok demo_startup"
  by (simp add: startup_ok_def demo_startup_def initial_state_def deliver_def eval_nat_numeral)

lemma demo_cycle_sel:
  "ce_update (demo_cycle evs u i m f d) = u" "ce_info (demo_cycle evs u i m f d) = i"
  "ce_malloc (demo_cycle evs u i m f d) = m" "ce_get_c (demo_cycle evs u i m f d) = f"
  "ce_dev_init (demo_cycle evs u i m f d) = d" "ce_events (demo_cycle evs u i m f d) = evs"
  by (simp_all add: demo_cycle_def)

lemma bad_text_calls:
  "command_calls bad_text ''update'' =
     [SocketCreate, SetTimeout 3 5000 TRANS_RECV, SetTimeout 3 5000 TRANS_SEND, Str2Addr,
      Connect 3, NetSend 3 ''update'', NetRecv 3 1023, NetClose 3]"
  by (simp add: command_calls_def bad_text_def text_session_def socket_send_command_def
      RECV_BUFFER_SIZE_def Let_def)

theorem failed_cycle_reaches_delay_witness:
  "command_ret bad_text \<noteq> 0 \<and>
   snd (cycle (demo_cycle [] bad_text good_text (Some [0, 0, 0]) good_frame 0)
         (initial_state (replicate 1024 NUL))) =
     [SocketCreate, SetTimeout 3 5000 TRANS_RECV, SetTimeout 3 5000 TRANS_SEND, Str2Addr,
      Connect 3, NetSend 3 ''update'', NetRecv 3 1023, NetClose 3, SysSleep 180000] \<and>
   command_ret good_text = 0 \<and>
   ''get_c'' \<notin> set (commands_sent
      (snd (cycle (demo_cycle [] good_text bad_text (Some [0, 0, 0]) good_frame 0)
         (initial_state (replicate 1024 NUL))))) \<and>
   filter panel_action
      (snd (cycle (demo_cycle [] good_text good_text None good_frame 0)
         (initial_state (replicate 1024 NUL)))) = [] \<and>
   download_ret bad_frame \<noteq> 0 \<and>
   filter panel_action
      (snd (cycle (demo_cycle [] good_text good_text (Some [0, 0, 0]) bad_frame 0)
         (initial_state (replicate 1024 NUL)))) = [] \<and>
   download_ret good_frame = 0 \<and>
   filter panel_action
      (snd (cycle (demo_cycle [] good_text good_text (Some [0, 0, 0]) good_frame 1)
         (initial_state (replicate 1024 NUL)))) = [DevModuleInit] \<and>
   startup_ok demo_startup \<and>
   fst (EPD_test_net demo_startup
      [demo_cycle [] bad_text good_text (Some [0, 0, 0]) good_frame 0,
       demo_cycle [WFE_DISCONNECTED] good_text bad_text (Some [0, 0, 0]) good_frame 0]
      (replicate 1024 NUL)) = InMainLoop"
proof -
  note d = demo_rets demo_cycle_sel
  from failed_cycle_reaches_delay
    [where e = "demo_cycle [] bad_text good_text (Some [0, 0, 0]) good_frame 0"
      and st = "initial_state (replicate 1024 NUL)" and su = demo_startup
      and es = "[demo_cycle [] bad_text good_text (Some [0, 0, 0]) good_frame 0,
        demo_cycle [WFE_DISCONNECTED] good_text bad_text (Some [0, 0, 0]) good_frame 0]"
      and ?response0.0 = "replicate 1024 NUL"]
    demo_startup_ok
  have 1: "snd (cycle (demo_cycle [] bad_text good_text (Some [0, 0, 0]) good_frame 0)
         (initial_state (replicate 1024 NUL))) =
     [SocketCreate, SetTimeout 3 5000 TRANS_RECV, SetTimeout 3 5000 TRANS_SEND, Str2Addr,
      Connect 3, NetSend 3 ''update'', NetRecv 3 1023, NetClose 3, SysSleep 180000]"
    and 6: "fst (EPD_test_net demo_startup
      [demo_cycle [] bad_text good_text (Some [0, 0, 0]) good_frame 0,
       demo_cycle [WFE_DISCONNECTED] good_text bad_text (Some [0, 0, 0]) good_frame 0]
      (replicate 1024 NUL)) = InMainLoop"
    by (simp_all add: d bad_text_calls LOOP_INTERVAL_MS_def)
  from failed_cycle_reaches_delay
    [where e = "demo_cycle [] good_text bad_text (Some [0, 0, 0]) good_frame 0"
      and st = "initial_state (replicate 1024 NUL)" and su = demo_startup and es = "[]"
      and ?response0.0 = "[]"]
  have 2: "''get_c'' \<notin> set (commands_sent
      (snd (cycle (demo_cycle [] good_text bad_text (Some [0, 0, 0]) good_frame 0)
         (initial_state (replicate 1024 NUL)))))"
    by (auto simp add: d)
  from failed_cycle_reaches_delay
    [where e = "demo_cycle [] good_text good_text None good_frame 0"
      and st = "initial_state (replicate 1024 NUL)" and su = demo_startup and es = "[]"
      and ?response0.0 = "[]"]
  have 3: "filter panel_action
      (snd (cycle (demo_cycle [] good_text good_text None good_frame 0)
         (initial_state (replicate 1024 NUL)))) = []"
    by (auto simp add: d)
  from failed_cycle_reaches_delay
    [where e = "demo_cycle [] good_text good_text (Some [0, 0, 0]) bad_frame 0"
      and st = "initial_state (replicate 1024 NUL)" and su = demo_startup and es = "[]"
      and ?response0.0 = "[]"]
  have 4: "filter panel_action
      (snd (cycle (demo_cycle [] good_text good_text (Some [0, 0, 0]) bad_frame 0)
         (initial_state (replicate 1024 NUL)))) = []"
    by (auto simp add: d)
  from failed_cycle_reaches_delay
    [where e = "demo_cycle [] good_text good_text (Some [0, 0, 0]) good_frame 1"
      and st = "initial_state (replicate 1024 NUL)" and su = demo_startup and es = "[]"
      and ?response0.0 = "[]"]
  have 5: "filter panel_action
      (snd (cycle (demo_cycle [] good_text good_text (Some [0, 0, 0]) good_frame 1)
         (initial_state (replicate 1024 NUL)))) = [DevModuleInit]"
    by (auto simp add: d)
  from 1 2 3 4 5 6 demo_startup_ok show ?thesis by (simp add: demo_rets)
qed

lemma deliver_simps [simp]:
  "deliver [] g = g" "deliver (ev # evs) g = deliver evs (wifi_event_callback ev g)"
  by (simp_all add: deliver_def)

lemma send_command_wifi_flag:
  "g_wifi_connected (cr_globals (socket_send_command s g cmd response n)) = g_wifi_connected g"
  by (simp add: socket_send_command_def Let_def)

lemma cycle_wifi_flag:
  "g_wifi_connected (st_globals (fst (cycle e st))) =
     g_wifi_connected (deliver (ce_events e) (st_globals st))"
  by (simp add: cycle_def Let_def send_command_wifi_flag parse_update_def parse_info_def)

lemma cycle_no_link_poll: "ReadLinkFlag \<notin> set (snd (cycle e st))"
proof -
  obtain i t f b where "snd (cycle e st) = cycle_calls e i t f b"
    using cycle_shape [of e st] by blast
  then show ?thesis
    by (simp add: cycle_calls_def command_calls_props download_calls_props)
qed

lemma main_loop_no_link_poll: "ReadLinkFlag \<notin> set (snd (main_loop es st))"
  by (induction es arbitrary: st) (simp_all add: Let_def cycle_no_link_poll)

lemma cycle_starts_with_update:
  "prefix (command_calls (ce_update e) ''update'') (snd (cycle e st))"
proof -
  obtain i t f b where "snd (cycle e st) = cycle_calls e i t f b"
    using cycle_shape [of e st] by blast
  then show ?thesis by (simp add: cycle_calls_def)
qed

text \<open>
  Claim C3, amended. The main loop never reads the link flag. Every cycle starts with
  the calls of the \<^verbatim>\<open>update\<close> command, whatever the callbacks have written; when
  that command fails, the cycle is those calls and the inter-cycle sleep. Once the
  start has reached the loop, \<^verbatim>\<open>EPD_test_net\<close> does not return, whatever WiFi events
  arrive during the cycles.
\<close>

theorem link_loss_keeps_looping:
  "ReadLinkFlag \<notin> set (snd (main_loop es st)) \<and>
   prefix (command_calls (ce_update e) ''update'') (snd (cycle e st)) \<and>
   hd (snd (cycle e st)) = SocketCreate \<and>
   (startup_ok su \<longrightarrow> fst (EPD_test_net su es response0) = InMainLoop) \<and>
   (command_ret (ce_update e) \<noteq> 0 \<longrightarrow>
      snd (cycle e st) = command_calls (ce_update e) ''update'' @ [SysSleep LOOP_INTERVAL_MS])"
proof -
  obtain i t f b where shape: "snd (cycle e st) = cycle_calls e i t f b"
    using cycle_shape [of e st] by blast
  obtain tr where tr: "command_calls (ce_update e) ''update'' = SocketCreate # tr"
    using command_calls_start by blast
  have 3: "hd (snd (cycle e st)) = SocketCreate"
    unfolding shape by (simp add: cycle_calls_def tr)
  have 5: "snd (cycle e st) = command_calls (ce_update e) ''update'' @ [SysSleep LOOP_INTERVAL_MS]"
    if "command_ret (ce_update e) \<noteq> 0"
    unfolding shape using that by (simp add: cycle_calls_def)
  from main_loop_no_link_poll [of es st] cycle_starts_with_update [of e st] 3 5
    EPD_test_net_in_loop [of su es response0]
  show ?thesis by blast
qed

lemma update_failed_cycle:
  assumes "command_ret (ce_update e) \<noteq> 0"
  shows "snd (cycle e st) = command_calls (ce_update e) ''update'' @ [SysSleep LOOP_INTERVAL_MS]"
proof -
  obtain i t f b where "snd (cycle e st) = cycle_calls e i t f b"
    using cycle_shape [of e st] by blast
  with assms show ?thesis by (simp add: cycle_calls_def)
qed

theorem link_loss_keeps_looping_witness:
  "startup_ok demo_startup \<and>
   fst (EPD_test_net demo_startup
      [demo_cycle [WFE_DISCONNECTED] bad_text good_text (Some [0, 0, 0]) good_frame 0,
       demo_cycle [] bad_text good_text (Some [0, 0, 0]) good_frame 0]
      (replicate 1024 NUL)) = InMainLoop \<and>
   command_ret bad_text \<noteq> 0 \<and>
   snd (cycle (demo_cycle [WFE_DISCONNECTED] bad_text good_text (Some [0, 0, 0]) good_frame 0)
         linked_state) =
     [SocketCreate, SetTimeout 3 5000 TRANS_RECV, SetTimeout 3 5000 TRANS_SEND, Str2Addr,
      Connect 3, NetSend 3 ''update'', NetRecv 3 1023, NetClose 3, SysSleep 180000]"
proof -
  from link_loss_keeps_looping
    [where e = "demo_cycle [WFE_DISCONNECTED] bad_text good_text (Some [0, 0, 0]) good_frame 0"
      and st = linked_state and su = demo_startup
      and es = "[demo_cycle [WFE_DISCONNECTED] bad_text good_text (Some [0, 0, 0]) good_frame 0,
        demo_cycle [] bad_text good_text (Some [0, 0, 0]) good_frame 0]"
      and ?response0.0 = "replicate 1024 NUL"]
    demo_startup_ok
  show ?thesis
    by (auto simp add: demo_rets demo_cycle_sel bad_text_calls LOOP_INTERVAL_MS_def)
qed

text \<open>
  The claim as it is stated fails: the loop is entered with the link up, and
  \<^verbatim>\<open>WFE_DISCONNECTED\<close> arrives during a cycle. After that cycle the flag is down,
  and the next cycle creates a socket and sends \<^verbatim>\<open>update\<close> without having read the
  flag.
\<close>

theorem link_loss_counterexample:
  "g_wifi_connected (st_globals linked_state) \<and>
   \<not> g_wifi_connected (st_globals (fst (cycle
       (demo_cycle [WFE_DISCONNECTED] bad_text good_text (Some [0, 0, 0]) good_frame 0)
       linked_state))) \<and>
   snd (cycle (demo_cycle [] bad_text good_text (Some [0, 0, 0]) good_frame 0)
      (fst (cycle
        (demo_cycle [WFE_DISCONNECTED] bad_text good_text (Some [0, 0, 0]) good_frame 0)
        linked_state))) =
     [SocketCreate, SetTimeout 3 5000 TRANS_RECV, SetTimeout 3 5000 TRANS_SEND, Str2Addr,
      Connect 3, NetSend 3 ''update'', NetRecv 3 1023, NetClose 3, SysSleep 180000]"
proof -
  have 1: "g_wifi_connected (st_globals linked_state)"
    by (simp add: linked_state_def demo_globals_def)
  have 2: "\<not> g_wifi_connected (st_globals (fst (cycle
       (demo_cycle [WFE_DISCONNECTED] bad_text good_text (Some [0, 0, 0]) good_frame 0)
       linked_state)))"
    by (simp add: cycle_wifi_flag demo_cycle_sel)
  have "command_ret (ce_update (demo_cycle [] bad_text good_text (Some [0, 0, 0]) good_frame 0))
      \<noteq> 0"
    by (simp add: demo_cycle_sel demo_rets)
  from update_failed_cycle [OF this] 1 2 show ?thesis
    by (simp add: demo_cycle_sel bad_text_calls LOOP_INTERVAL_MS_def)
qed

end
